theory Spec2Isabelle
  imports Complex_Main "HOL-Library.Log_Nat"
begin

section \<open>Inventory manager (src/lib/product-inventory-service.ts)\<close>

text \<open>
  The collection \<^verbatim>\<open>product_inventory\<close> holds one document per product type, a
  dictionary from product id to \<^verbatim>\<open>{ purchased, total, name }\<close>, and the marker
  document \<^verbatim>\<open>initialized\<close>. A document that does not exist is \<open>None\<close>.
  Firestore calls are modelled as succeeding, except where noted; the
  \<^verbatim>\<open>isClientSide()\<close> guard of every method is the field \<open>inv_clientSide\<close>.

  A count is a JavaScript number. What the methods can read from the field of an entry
  is a whole number, \<^verbatim>\<open>NaN\<close> (which \<^verbatim>\<open>increasePurchasedCount\<close> can itself write), or
  \<^verbatim>\<open>undefined\<close> when the entry has no such field. Whole numbers are integers here
  (below \<open>2^53\<close> the sum with 1 is exact).
\<close>

datatype productType = special | premium

datatype count = Count int | NaN | Undefined

record inventoryItem =
  purchased :: count
  total :: count
  item_name :: "string option"

type_synonym inventoryDoc = "string \<rightharpoonup> inventoryItem"

record inventory_db =
  inv_clientSide :: bool
  initialized :: "bool option"
  inventory :: "productType \<Rightarrow> inventoryDoc option"

text \<open>
  \<^verbatim>\<open>a >= b\<close> and \<^verbatim>\<open>a + 1\<close> on what a count field can hold: \<^verbatim>\<open>undefined\<close>
  converts to \<^verbatim>\<open>NaN\<close>, every comparison with \<^verbatim>\<open>NaN\<close> is false, and
  \<^verbatim>\<open>NaN + 1\<close> is \<^verbatim>\<open>NaN\<close>.
\<close>

fun greaterEqual :: "count \<Rightarrow> count \<Rightarrow> bool" where
  "greaterEqual (Count a) (Count b) = (a \<ge> b)"
| "greaterEqual _ _ = False"

fun plusOne :: "count \<Rightarrow> count" where
  "plusOne (Count a) = Count (a + 1)"
| "plusOne _ = NaN"

text \<open>
  \<^verbatim>\<open>inventory[productId]\<close> on the plain object \<^verbatim>\<open>inventoryDoc.data()\<close> returns: an
  entry of the document, when the id is one of its keys; otherwise a member that the
  object inherits from \<^verbatim>\<open>Object.prototype\<close>, when the id is the name of one; otherwise
  \<^verbatim>\<open>undefined\<close>. An inherited member is a function (or, for \<^verbatim>\<open>__proto__\<close>, the
  prototype object): it is truthy and has neither a \<^verbatim>\<open>purchased\<close> nor a
  \<^verbatim>\<open>total\<close>. \<open>property\<close> is the lookup as far as the method uses it: \<open>None\<close>
  for a falsy result, else the two fields it goes on to read.
\<close>

definition objectPrototype :: "string list" where
  "objectPrototype =
     [''constructor'', ''__defineGetter__'', ''__defineSetter__'', ''hasOwnProperty'',
      ''__lookupGetter__'', ''__lookupSetter__'', ''isPrototypeOf'', ''propertyIsEnumerable'',
      ''toString'', ''valueOf'', ''__proto__'', ''toLocaleString'']"

definition inheritedName :: "string \<Rightarrow> bool" where
  "inheritedName productId = (productId \<in> set objectPrototype)"

definition property :: "inventoryDoc \<Rightarrow> string \<Rightarrow> (count \<times> count) option" where
  "property doc productId =
     (case doc productId of
        Some item \<Rightarrow> Some (purchased item, total item)
      | None \<Rightarrow> if inheritedName productId then Some (Undefined, Undefined) else None)"

definition mkItem :: "int \<Rightarrow> string \<Rightarrow> inventoryItem" where
  "mkItem t n = \<lparr>purchased = Count 0, total = Count t, item_name = Some n\<rparr>"

definition specialInventory :: inventoryDoc where
  "specialInventory =
     [''special-1'' \<mapsto> mkItem 50 ''Special 1'',
      ''special-2'' \<mapsto> mkItem 50 ''Special 2'',
      ''special-3'' \<mapsto> mkItem 50 ''Special 3'',
      ''special-4'' \<mapsto> mkItem 50 ''Special 4'',
      ''special-5'' \<mapsto> mkItem 50 ''Special 5'',
      ''special-6'' \<mapsto> mkItem 35 ''Special 6'',
      ''special-7'' \<mapsto> mkItem 25 ''Special 7'',
      ''special-8'' \<mapsto> mkItem 15 ''Special 8'',
      ''special-9'' \<mapsto> mkItem 5 ''Special 9'',
      ''special-10'' \<mapsto> mkItem 3 ''Special 10'',
      ''special-11'' \<mapsto> mkItem 1 ''Special 11'']"

definition premiumInventory :: inventoryDoc where
  "premiumInventory =
     [''premium-1'' \<mapsto> mkItem 200 ''Premium 1'',
      ''premium-2'' \<mapsto> mkItem 55 ''Premium 2'',
      ''premium-3'' \<mapsto> mkItem 55 ''Premium 3'',
      ''premium-4'' \<mapsto> mkItem 55 ''Premium 4'',
      ''premium-5'' \<mapsto> mkItem 50 ''Premium 5'',
      ''premium-6'' \<mapsto> mkItem 45 ''Premium 6'',
      ''premium-7'' \<mapsto> mkItem 20 ''Premium 7'',
      ''premium-8'' \<mapsto> mkItem 10 ''Premium 8'',
      ''premium-9'' \<mapsto> mkItem 2 ''Premium 9'',
      ''premium-10'' \<mapsto> mkItem 1 ''Premium 10'']"

text \<open>
  \<^verbatim>\<open>initializeInventory\<close>: returns at once when the marker document exists
  (whatever it holds); otherwise writes the two inventories and then the marker.
\<close>

definition initializeInventory :: "inventory_db \<Rightarrow> inventory_db" where
  "initializeInventory s =
     (if \<not> inv_clientSide s then s
      else if initialized s \<noteq> None then s
      else s\<lparr>inventory := (inventory s)(special := Some specialInventory,
                                          premium := Some premiumInventory),
             initialized := Some True\<rparr>)"

text \<open>
  \<^verbatim>\<open>updateDoc(inventoryRef, { [`${productId}.purchased`]: v })\<close>: a patch of the
  field \<^verbatim>\<open>purchased\<close> below \<^verbatim>\<open>productId\<close>, which leaves the other fields of the
  entry as they are and creates the entry when the document has none under that id.
  The keys of a document and the product ids written are taken to be single field
  names (without \<^verbatim>\<open>.\<close>, \<^verbatim>\<open>~\<close>, \<^verbatim>\<open>*\<close>, \<^verbatim>\<open>/\<close>, \<^verbatim>\<open>[\<close>, \<^verbatim>\<open>]\<close>), as all ids the
  service seeds and all names of \<^verbatim>\<open>Object.prototype\<close> are.

  The SDK checks the path before anything is sent: a field name that matches
  \<^verbatim>\<open>/^__.*__$/\<close> is refused (\<^verbatim>\<open>Document fields cannot begin and end with "__"\<close>),
  \<^verbatim>\<open>updateDoc\<close> throws, and the \<^verbatim>\<open>catch\<close> of \<^verbatim>\<open>increasePurchasedCount\<close> returns
  false. Firestore holds no field of such a name, so the paths that
  \<^verbatim>\<open>restoreInventory\<close> builds from the keys of a stored document are admitted.
\<close>

definition reservedFieldName :: "string \<Rightarrow> bool" where
  "reservedFieldName name =
     (length name \<ge> 4 \<and> take 2 name = ''__'' \<and> drop (length name - 2) name = ''__'' \<and>
      CHR 0x0A \<notin> set name \<and> CHR 0x0D \<notin> set name)"

definition patchPurchased :: "string \<Rightarrow> count \<Rightarrow> inventoryDoc \<Rightarrow> inventoryDoc" where
  "patchPurchased productId v doc =
     (case doc productId of
        None \<Rightarrow> doc(productId \<mapsto> \<lparr>purchased = v, total = Undefined, item_name = None\<rparr>)
      | Some item \<Rightarrow> doc(productId \<mapsto> item\<lparr>purchased := v\<rparr>))"

definition updateDoc :: "productType \<Rightarrow> (inventoryDoc \<Rightarrow> inventoryDoc) \<Rightarrow> inventory_db \<Rightarrow> inventory_db" where
  "updateDoc productType patch s =
     (case inventory s productType of
        None \<Rightarrow> s
      | Some doc \<Rightarrow> s\<lparr>inventory := (inventory s)(productType := Some (patch doc))\<rparr>)"

text \<open>
  \<^verbatim>\<open>increasePurchasedCount\<close>: the guard, the lazy initialisation, the read of the
  document, the three tests that return false, and the patch with the count read plus
  one, which returns true unless the path is refused.
\<close>

definition increasePurchasedCount :: "string \<Rightarrow> productType \<Rightarrow> inventory_db \<Rightarrow> bool \<times> inventory_db" where
  "increasePurchasedCount productId productType s =
     (if \<not> inv_clientSide s then (False, s)
      else
        let s1 = initializeInventory s in
        (case inventory s1 productType of
           None \<Rightarrow> (False, s1)
         | Some invData \<Rightarrow>
             (case property invData productId of
                None \<Rightarrow> (False, s1)
              | Some (purchasedRead, totalRead) \<Rightarrow>
                  if greaterEqual purchasedRead totalRead then (False, s1)
                  else
                    let oldPurchased = purchasedRead;
                        newPurchased = plusOne oldPurchased
                    in if reservedFieldName productId then (False, s1)
                       else (True, updateDoc productType (patchPurchased productId newPurchased) s1))))"











subsection \<open>Interleaved calls\<close>








section \<open>Users, transactions, products (the service classes of the user-service module)\<close>

text \<open>
  The Firestore collections the services read and write, as one record. A user document
  is stored under the user's id, a document id (one path segment); \<^verbatim>\<open>getUserById\<close>
  returns the document together with that id, and \<^verbatim>\<open>saveUser\<close> writes the whole
  document back under it. Transactions,
  notifications and reward claims are only ever added (\<^verbatim>\<open>addDoc\<close>), so they are lists
  in the order of creation, without their generated ids.

  Amounts are JavaScript numbers, that is, double-precision floating-point numbers; a
  finite number is the rational it denotes. A product with a percentage is rounded to
  double precision as the machine rounds it (\<open>multiply\<close> below). The sums are sums of
  whole amounts (catalogue amounts and results of \<^verbatim>\<open>Math.round\<close>), which are exact in
  double precision below \<open>2^53\<close>; they are modelled as exact. Dates are held as milliseconds
  (\<^verbatim>\<open>Date.getTime()\<close>); every \<^verbatim>\<open>new Date()\<close> of one operation reads \<open>clock\<close>.
  Firestore calls are modelled as succeeding: the throw sites are the
  \<^verbatim>\<open>throw new Error('Firebase not initialized')\<close> of the methods that guard on
  \<^verbatim>\<open>isClientSide()\<close>, the field \<open>clientSide\<close>. Fields of the interfaces that no
  modelled method reads are left out.
\<close>

datatype error = FirebaseNotInitialized

record AppUser =
  email :: string
  balance :: "rat option"
  referredBy :: "string option"
  referralEarnings :: "rat option"
  hasDeposited :: "bool option"

datatype transactionType = Deposit | Withdrawal | Investment | Admin_Add | Admin_Deduct | Referral_Bonus

datatype transactionStatus = TxCompleted | TxPending | TxFailed

record Transaction =
  tx_userId :: string
  tx_userEmail :: string
  tx_type :: transactionType
  tx_amount :: rat
  tx_status :: transactionStatus
  tx_date :: int
  tx_description :: string
  tx_referralUserId :: "string option"

datatype planType = Basic | Special | Premium

datatype productStatus = Active | Completed

record PurchasedProduct =
  pp_id :: string
  pp_userId :: string
  pp_name :: string
  price :: rat
  dailyEarning :: rat
  totalEarning :: rat
  pp_status :: productStatus
  pp_planType :: planType
  startDate :: int
  endDate :: int
  lastPayoutDate :: "int option"

text \<open>
  The text of a referral notification is a template with the level and the amount
  (\<^verbatim>\<open>You earned N<amount> Level <k> referral bonus! ...\<close>); it is kept as the pair.
\<close>

datatype notificationMessage = ReferralBonusMessage nat rat

datatype notificationType = NtAnnouncement | NtSystem | NtReferral | NtTransaction

record Notification =
  n_userId :: string
  n_message :: notificationMessage
  n_date :: int
  n_read :: bool
  n_type :: notificationType

datatype rewardStatus = RewardClaimed | RewardPending

record RewardClaim =
  rc_userId :: string
  rc_milestoneTarget :: int
  rc_amount :: rat
  rc_status :: rewardStatus
  rc_claimedAt :: int

record db =
  clientSide :: bool
  clock :: int
  users :: "(string \<times> AppUser) list"
  transactions :: "Transaction list"
  notifications :: "Notification list"
  purchased_products :: "PurchasedProduct list"
  referral_rewards :: "RewardClaim list"

subsection \<open>JavaScript idioms\<close>

text \<open>\<^verbatim>\<open>(x || 0)\<close> on an optional number.\<close>

definition orZero :: "rat option \<Rightarrow> rat" where
  "orZero x = (case x of None \<Rightarrow> 0 | Some v \<Rightarrow> v)"

text \<open>Truthiness of an optional string: \<^verbatim>\<open>undefined\<close> and \<^verbatim>\<open>''\<close> are falsy.\<close>

definition truthy :: "string option \<Rightarrow> bool" where
  "truthy x = (case x of None \<Rightarrow> False | Some v \<Rightarrow> v \<noteq> [])"

text \<open>\<^verbatim>\<open>Math.round\<close>: the nearest integer, a half rounded towards plus infinity.\<close>

definition Math_round :: "rat \<Rightarrow> rat" where
  "Math_round x = of_int \<lfloor>x + 1 / 2\<rfloor>"

text \<open>
  Rounding to double precision (IEEE 754 binary64, round to nearest, ties to even). A
  double is a whole multiple of \<open>2^(e - 52)\<close>, where \<open>e\<close> is the binary exponent of
  its magnitude and is not below \<open>- 1022\<close>; \<open>double x\<close> is the multiple nearest to
  \<open>x\<close>, that with the even factor when two are equally near. \<open>exponent x\<close> is
  \<open>\<lfloor>log\<^sub>2 \<bar>x\<bar>\<rfloor>\<close>, or \<open>- 1022\<close> when that is smaller. The product of two numbers
  is the exact product rounded; a literal such as \<^verbatim>\<open>0.19\<close> denotes
  \<open>double (19 / 100)\<close>. Magnitudes beyond the largest double do not arise: the
  products formed are of a finite number with a factor below 1.
\<close>

definition emin :: int where
  "emin = - 1022"

definition exponent :: "rat \<Rightarrow> int" where
  "exponent x = max (bitlen \<lfloor>\<bar>x\<bar> * 2 powi (- emin)\<rfloor> - 1 + emin) emin"

definition roundHalfEven :: "rat \<Rightarrow> int" where
  "roundHalfEven x =
     (let n = \<lfloor>x\<rfloor>; f = x - of_int n in
      if f < 1 / 2 then n else if f > 1 / 2 then n + 1 else if even n then n else n + 1)"

definition double :: "rat \<Rightarrow> rat" where
  "double x = of_int (roundHalfEven (x / 2 powi (exponent x - 52))) * 2 powi (exponent x - 52)"

definition multiply :: "rat \<Rightarrow> rat \<Rightarrow> rat" where
  "multiply a b = double (a * b)"

subsection \<open>UserService, TransactionService, NotificationService, ProductService\<close>

definition getUserById :: "string \<Rightarrow> db \<Rightarrow> (string \<times> AppUser) option" where
  "getUserById userId w = map_option (Pair userId) (map_of (users w) userId)"

text \<open>
  \<^verbatim>\<open>getUserById(x.referredBy!)\<close> where the field may be unset: \<^verbatim>\<open>doc()\<close> rejects an
  undefined or empty id inside the \<^verbatim>\<open>try\<close> of \<^verbatim>\<open>getUserById\<close>, which returns null.
\<close>

definition getUserByRef :: "string option \<Rightarrow> db \<Rightarrow> (string \<times> AppUser) option" where
  "getUserByRef ref w =
     (case ref of
        None \<Rightarrow> None
      | Some userId \<Rightarrow> if userId = [] then None else getUserById userId w)"

fun upsert :: "string \<Rightarrow> AppUser \<Rightarrow> (string \<times> AppUser) list \<Rightarrow> (string \<times> AppUser) list" where
  "upsert k v [] = [(k, v)]"
| "upsert k v (p # ps) = (if fst p = k then (k, v) # ps else p # upsert k v ps)"

definition saveUser :: "string \<times> AppUser \<Rightarrow> db \<Rightarrow> db" where
  "saveUser user w = w\<lparr>users := upsert (fst user) (snd user) (users w)\<rparr>"

text \<open>
  \<^verbatim>\<open>getTransactionsByUser\<close> returns the user's transactions ordered by date; its callers
  here only ask whether some element satisfies a test, so the order is not modelled.
\<close>

definition getTransactionsByUser :: "string \<Rightarrow> db \<Rightarrow> Transaction list" where
  "getTransactionsByUser userId w =
     (if \<not> clientSide w then []
      else filter (\<lambda>transaction. tx_userId transaction = userId) (transactions w))"

definition createTransaction :: "Transaction \<Rightarrow> db \<Rightarrow> db" where
  "createTransaction transaction w = w\<lparr>transactions := transactions w @ [transaction]\<rparr>"

definition createNotification :: "Notification \<Rightarrow> db \<Rightarrow> (error + unit) \<times> db" where
  "createNotification notification w =
     (if \<not> clientSide w then (Inl FirebaseNotInitialized, w)
      else (Inr (), w\<lparr>notifications := notifications w @ [notification]\<rparr>))"

text \<open>
  \<^verbatim>\<open>getUserProducts\<close> sorts by purchase date; its callers here use the length only.
\<close>

definition getUserProducts :: "string \<Rightarrow> db \<Rightarrow> PurchasedProduct list" where
  "getUserProducts userId w =
     (if \<not> clientSide w then []
      else filter (\<lambda>p. pp_userId p = userId) (purchased_products w))"

definition getAllActiveProducts :: "db \<Rightarrow> PurchasedProduct list" where
  "getAllActiveProducts w =
     (if \<not> clientSide w then []
      else filter (\<lambda>p. pp_status p = Active) (purchased_products w))"

text \<open>
  \<^verbatim>\<open>updateProductStatus\<close> and \<^verbatim>\<open>updateProductPayoutDate\<close> patch one field of the
  product document with the given id; the sweep applies them to documents it has just
  read.
\<close>

definition updateProductStatus :: "string \<Rightarrow> productStatus \<Rightarrow> db \<Rightarrow> (error + unit) \<times> db" where
  "updateProductStatus productId status w =
     (if \<not> clientSide w then (Inl FirebaseNotInitialized, w)
      else (Inr (), w\<lparr>purchased_products :=
              map (\<lambda>p. if pp_id p = productId then p\<lparr>pp_status := status\<rparr> else p)
                (purchased_products w)\<rparr>))"

definition updateProductPayoutDate :: "string \<Rightarrow> int \<Rightarrow> db \<Rightarrow> (error + unit) \<times> db" where
  "updateProductPayoutDate productId payoutDate w =
     (if \<not> clientSide w then (Inl FirebaseNotInitialized, w)
      else (Inr (), w\<lparr>purchased_products :=
              map (\<lambda>p. if pp_id p = productId then p\<lparr>lastPayoutDate := Some payoutDate\<rparr> else p)
                (purchased_products w)\<rparr>))"

subsection \<open>InvestmentPlanService: the payout sweep\<close>

definition addToUserBalance :: "string \<Rightarrow> rat \<Rightarrow> db \<Rightarrow> db" where
  "addToUserBalance userId amount w =
     (if \<not> clientSide w then w
      else
        (case getUserById userId w of
           None \<Rightarrow> w
         | Some user \<Rightarrow>
             let newBalance = orZero (balance (snd user)) + amount
             in saveUser (fst user, (snd user)\<lparr>balance := Some newBalance\<rparr>) w))"

definition finalPayout :: "PurchasedProduct \<Rightarrow> rat" where
  "finalPayout product =
     (case pp_planType product of
        Basic \<Rightarrow> totalEarning product
      | Premium \<Rightarrow> totalEarning product
      | Special \<Rightarrow> price product)"

definition completePlan :: "PurchasedProduct \<Rightarrow> db \<Rightarrow> (error + unit) \<times> db" where
  "completePlan product w =
     (if \<not> clientSide w then (Inr (), w)
      else
        let now = clock w;
            w1 = addToUserBalance (pp_userId product) (finalPayout product) w;
            w2 = createTransaction
                   \<lparr>tx_userId = pp_userId product, tx_userEmail = '''', tx_type = Investment,
                    tx_amount = finalPayout product, tx_status = TxCompleted, tx_date = now,
                    tx_description = ''Plan completion payout from '' @ pp_name product,
                    tx_referralUserId = None\<rparr> w1
        in updateProductStatus (pp_id product) Completed w2)"

definition msPerDay :: int where
  "msPerDay = 1000 * 60 * 60 * 24"

definition lastPayout :: "PurchasedProduct \<Rightarrow> int" where
  "lastPayout product =
     (case lastPayoutDate product of Some d \<Rightarrow> d | None \<Rightarrow> startDate product)"

definition daysSinceLastPayout :: "int \<Rightarrow> PurchasedProduct \<Rightarrow> int" where
  "daysSinceLastPayout now product = (now - lastPayout product) div msPerDay"

definition processDailyPayout :: "PurchasedProduct \<Rightarrow> db \<Rightarrow> (error + unit) \<times> db" where
  "processDailyPayout product w =
     (if \<not> clientSide w then (Inr (), w)
      else
        let now = clock w in
        if daysSinceLastPayout now product \<ge> 1 then
          let w2 =
                (if pp_planType product = Special then
                   let payoutAmount = dailyEarning product;
                       w1 = addToUserBalance (pp_userId product) payoutAmount w
                   in createTransaction
                        \<lparr>tx_userId = pp_userId product, tx_userEmail = '''', tx_type = Investment,
                         tx_amount = payoutAmount, tx_status = TxCompleted, tx_date = now,
                         tx_description = ''Daily payout from '' @ pp_name product,
                         tx_referralUserId = None\<rparr> w1
                 else w)
          in updateProductPayoutDate (pp_id product) now w2
        else (Inr (), w))"

text \<open>
  The loop of \<^verbatim>\<open>processDailyPayouts\<close> over the products read at its start. A throw
  leaves the loop; the \<^verbatim>\<open>catch\<close> around it logs and returns.
\<close>

fun payoutLoop :: "PurchasedProduct list \<Rightarrow> db \<Rightarrow> (error + unit) \<times> db" where
  "payoutLoop [] w = (Inr (), w)"
| "payoutLoop (product # rest) w =
     (let now = clock w in
      if pp_status product = Completed \<or> now < startDate product then payoutLoop rest w
      else
        (case (if now \<ge> endDate product then completePlan product w
               else processDailyPayout product w) of
           (Inl e, w') \<Rightarrow> (Inl e, w')
         | (Inr u, w') \<Rightarrow> payoutLoop rest w'))"

definition processDailyPayouts :: "db \<Rightarrow> db" where
  "processDailyPayouts w =
     (if \<not> clientSide w then w
      else snd (payoutLoop (getAllActiveProducts w) w))"

subsection \<open>ReferralService: the deposit bonus\<close>

definition processLevel1ReferralBonus :: "string \<times> AppUser \<Rightarrow> rat \<Rightarrow> db \<Rightarrow> (error + unit) \<times> db" where
  "processLevel1ReferralBonus user depositAmount w =
     (case getUserByRef (referredBy (snd user)) w of
        None \<Rightarrow> (Inr (), w)
      | Some referrer \<Rightarrow>
          (let level1Bonus = Math_round (multiply depositAmount (double (19 / 100))) in
           if level1Bonus > 0 then
             let updated =
                   (snd referrer)\<lparr>balance := Some (orZero (balance (snd referrer)) + level1Bonus),
                                  referralEarnings := Some (orZero (referralEarnings (snd referrer)) + level1Bonus)\<rparr>;
                 w1 = saveUser (fst referrer, updated) w;
                 w2 = createTransaction
                        \<lparr>tx_userId = fst referrer, tx_userEmail = email (snd referrer),
                         tx_type = Referral_Bonus, tx_amount = level1Bonus, tx_status = TxCompleted,
                         tx_date = clock w, tx_description = ''Level 1 referral bonus for first deposit'',
                         tx_referralUserId = Some (fst user)\<rparr> w1
             in createNotification
                  \<lparr>n_userId = fst referrer, n_message = ReferralBonusMessage 1 level1Bonus,
                   n_date = clock w, n_read = False, n_type = NtReferral\<rparr> w2
           else (Inr (), w)))"

definition processLevel2ReferralBonus :: "string \<times> AppUser \<Rightarrow> rat \<Rightarrow> db \<Rightarrow> (error + unit) \<times> db" where
  "processLevel2ReferralBonus user depositAmount w =
     (case getUserByRef (referredBy (snd user)) w of
        None \<Rightarrow> (Inr (), w)
      | Some level1Referrer \<Rightarrow>
          if \<not> truthy (referredBy (snd level1Referrer)) then (Inr (), w)
          else
            (case getUserByRef (referredBy (snd level1Referrer)) w of
               None \<Rightarrow> (Inr (), w)
             | Some level2Referrer \<Rightarrow>
                 (let level2Bonus = Math_round (multiply depositAmount (double (2 / 100))) in
                  if level2Bonus > 0 then
                    let updated =
                          (snd level2Referrer)\<lparr>balance := Some (orZero (balance (snd level2Referrer)) + level2Bonus),
                                         referralEarnings := Some (orZero (referralEarnings (snd level2Referrer)) + level2Bonus)\<rparr>;
                        w1 = saveUser (fst level2Referrer, updated) w;
                        w2 = createTransaction
                               \<lparr>tx_userId = fst level2Referrer, tx_userEmail = email (snd level2Referrer),
                                tx_type = Referral_Bonus, tx_amount = level2Bonus, tx_status = TxCompleted,
                                tx_date = clock w, tx_description = ''Level 2 referral bonus for first deposit'',
                                tx_referralUserId = Some (fst user)\<rparr> w1
                    in createNotification
                         \<lparr>n_userId = fst level2Referrer, n_message = ReferralBonusMessage 2 level2Bonus,
                          n_date = clock w, n_read = False, n_type = NtReferral\<rparr> w2
                  else (Inr (), w))))"

definition processLevel3ReferralBonus :: "string \<times> AppUser \<Rightarrow> rat \<Rightarrow> db \<Rightarrow> (error + unit) \<times> db" where
  "processLevel3ReferralBonus user depositAmount w =
     (case getUserByRef (referredBy (snd user)) w of
        None \<Rightarrow> (Inr (), w)
      | Some level1Referrer \<Rightarrow>
          if \<not> truthy (referredBy (snd level1Referrer)) then (Inr (), w)
          else
            (case getUserByRef (referredBy (snd level1Referrer)) w of
               None \<Rightarrow> (Inr (), w)
             | Some level2Referrer \<Rightarrow>
                 if \<not> truthy (referredBy (snd level2Referrer)) then (Inr (), w)
                 else
                   (case getUserByRef (referredBy (snd level2Referrer)) w of
                      None \<Rightarrow> (Inr (), w)
                    | Some level3Referrer \<Rightarrow>
                        (let level3Bonus = Math_round (multiply depositAmount (double (1 / 100))) in
                         if level3Bonus > 0 then
                           let updated =
                                 (snd level3Referrer)\<lparr>balance := Some (orZero (balance (snd level3Referrer)) + level3Bonus),
                                                referralEarnings := Some (orZero (referralEarnings (snd level3Referrer)) + level3Bonus)\<rparr>;
                               w1 = saveUser (fst level3Referrer, updated) w;
                               w2 = createTransaction
                                      \<lparr>tx_userId = fst level3Referrer, tx_userEmail = email (snd level3Referrer),
                                       tx_type = Referral_Bonus, tx_amount = level3Bonus, tx_status = TxCompleted,
                                       tx_date = clock w, tx_description = ''Level 3 referral bonus for first deposit'',
                                       tx_referralUserId = Some (fst user)\<rparr> w1
                           in createNotification
                                \<lparr>n_userId = fst level3Referrer, n_message = ReferralBonusMessage 3 level3Bonus,
                                 n_date = clock w, n_read = False, n_type = NtReferral\<rparr> w2
                         else (Inr (), w)))))"

definition alreadyPaid :: "string \<Rightarrow> string \<Rightarrow> db \<Rightarrow> bool" where
  "alreadyPaid referrerId userId w =
     list_ex (\<lambda>t. tx_type t = Referral_Bonus \<and> tx_referralUserId t = Some userId)
       (getTransactionsByUser referrerId w)"

text \<open>
  \<^verbatim>\<open>processDepositReferralBonus\<close>: the three levels are awaited one after the other
  inside one \<^verbatim>\<open>try\<close>, whose \<^verbatim>\<open>catch\<close> logs and rethrows.
\<close>

definition processDepositReferralBonus :: "string \<Rightarrow> rat \<Rightarrow> db \<Rightarrow> (error + unit) \<times> db" where
  "processDepositReferralBonus userId depositAmount w =
     (case getUserById userId w of
        None \<Rightarrow> (Inr (), w)
      | Some user \<Rightarrow>
          (case referredBy (snd user) of
             None \<Rightarrow> (Inr (), w)
           | Some referrerId \<Rightarrow>
               if referrerId = [] then (Inr (), w)
               else if alreadyPaid referrerId userId w then (Inr (), w)
               else
                 (case processLevel1ReferralBonus user depositAmount w of
                    (Inl e, w1) \<Rightarrow> (Inl e, w1)
                  | (Inr u1, w1) \<Rightarrow>
                      (case processLevel2ReferralBonus user depositAmount w1 of
                         (Inl e, w2) \<Rightarrow> (Inl e, w2)
                       | (Inr u2, w2) \<Rightarrow> processLevel3ReferralBonus user depositAmount w2))))"

subsection \<open>ReferralService: milestone rewards\<close>

record milestone =
  m_id :: string
  target :: int
  reward :: rat

definition getMilestoneConfig :: "milestone list" where
  "getMilestoneConfig =
     [\<lparr>m_id = ''VIP1'', target = 5, reward = 1000\<rparr>,
      \<lparr>m_id = ''VIP2'', target = 15, reward = 5000\<rparr>,
      \<lparr>m_id = ''VIP3'', target = 30, reward = 9000\<rparr>,
      \<lparr>m_id = ''VIP4'', target = 50, reward = 20000\<rparr>,
      \<lparr>m_id = ''VIP5'', target = 70, reward = 30000\<rparr>,
      \<lparr>m_id = ''VIP6'', target = 130, reward = 60000\<rparr>,
      \<lparr>m_id = ''VIP7'', target = 250, reward = 100000\<rparr>,
      \<lparr>m_id = ''VIP8'', target = 300, reward = 120000\<rparr>,
      \<lparr>m_id = ''VIP9'', target = 400, reward = 150000\<rparr>,
      \<lparr>m_id = ''VIP10'', target = 500, reward = 200000\<rparr>,
      \<lparr>m_id = ''VIP11'', target = 900, reward = 250000\<rparr>,
      \<lparr>m_id = ''VIP12'', target = 1200, reward = 320000\<rparr>,
      \<lparr>m_id = ''VIP13'', target = 2000, reward = 400000\<rparr>]"

definition getDirectReferrals :: "string \<Rightarrow> db \<Rightarrow> (string \<times> AppUser) list" where
  "getDirectReferrals userId w =
     (if \<not> clientSide w then []
      else filter (\<lambda>u. referredBy (snd u) = Some userId) (users w))"

text \<open>The loop of \<^verbatim>\<open>getValidReferralCount\<close>, with \<^verbatim>\<open>validCount\<close> as accumulator.\<close>

fun validLoop :: "(string \<times> AppUser) list \<Rightarrow> db \<Rightarrow> int \<Rightarrow> int" where
  "validLoop [] w validCount = validCount"
| "validLoop (referral # rest) w validCount =
     (if hasDeposited (snd referral) \<noteq> Some True then validLoop rest w validCount
      else
        let products = getUserProducts (fst referral) w in
        if length products > 0 then validLoop rest w (validCount + 1)
        else validLoop rest w validCount)"

definition getValidReferralCount :: "string \<Rightarrow> db \<Rightarrow> int" where
  "getValidReferralCount userId w =
     (let level1Referrals = getDirectReferrals userId w in
      if length level1Referrals = 0 then 0
      else validLoop level1Referrals w 0)"

datatype milestoneStatus = locked | claimable | claimed

record milestoneEntry =
  ms_id :: string
  ms_target :: int
  ms_reward :: rat
  ms_status :: milestoneStatus

record milestoneReport =
  r_validReferrals :: int
  r_milestones :: "milestoneEntry list"
  r_nextTarget :: "int option"

text \<open>The reward claims read at the start: the targets of the user's claimed records.\<close>

definition loadClaimedTargets :: "string \<Rightarrow> db \<Rightarrow> int set" where
  "loadClaimedTargets userId w =
     set (map rc_milestoneTarget
            (filter (\<lambda>r. rc_status r = RewardClaimed)
               (filter (\<lambda>r. rc_userId r = userId) (referral_rewards w))))"

text \<open>
  The loop of \<^verbatim>\<open>getReferralMilestoneStatus\<close> over the configuration, carrying
  \<^verbatim>\<open>nextTarget\<close>, \<^verbatim>\<open>allPreviousClaimed\<close> and the list built so far.
\<close>

fun milestoneLoop :: "milestone list \<Rightarrow> int \<Rightarrow> int set \<Rightarrow> int option \<times> bool \<times> milestoneEntry list
      \<Rightarrow> int option \<times> bool \<times> milestoneEntry list" where
  "milestoneLoop [] validReferrals claimedTargets acc = acc"
| "milestoneLoop (milestone # rest) validReferrals claimedTargets (nextTarget, allPreviousClaimed, milestones) =
     (let status =
            (if target milestone \<in> claimedTargets then claimed
             else if validReferrals \<ge> target milestone \<and> allPreviousClaimed then claimable
             else locked);
          nextTarget' =
            (if target milestone \<in> claimedTargets then nextTarget
             else if validReferrals \<ge> target milestone \<and> allPreviousClaimed then nextTarget
             else if validReferrals < target milestone \<and> nextTarget = None then Some (target milestone)
             else nextTarget);
          allPreviousClaimed' =
            (if target milestone \<notin> claimedTargets then False else allPreviousClaimed)
      in milestoneLoop rest validReferrals claimedTargets
           (nextTarget', allPreviousClaimed',
            milestones @ [\<lparr>ms_id = m_id milestone, ms_target = target milestone,
                           ms_reward = reward milestone, ms_status = status\<rparr>]))"

definition getReferralMilestoneStatus :: "string \<Rightarrow> db \<Rightarrow> milestoneReport" where
  "getReferralMilestoneStatus userId w =
     (if \<not> clientSide w then \<lparr>r_validReferrals = 0, r_milestones = [], r_nextTarget = None\<rparr>
      else
        let milestonesConfig = getMilestoneConfig;
            validReferrals = getValidReferralCount userId w;
            claimedTargets = loadClaimedTargets userId w;
            result = milestoneLoop milestonesConfig validReferrals claimedTargets (None, True, [])
        in \<lparr>r_validReferrals = validReferrals, r_milestones = snd (snd result), r_nextTarget = fst result\<rparr>)"

text \<open>
  The messages of \<^verbatim>\<open>claimReferralMilestone\<close>, one constructor per literal:
  \<^verbatim>\<open>'Not on client side'\<close>, \<^verbatim>\<open>'Invalid milestone'\<close>,
  \<^verbatim>\<open>'Milestone is not claimable yet'\<close>, \<^verbatim>\<open>'Referral target not reached'\<close>,
  \<^verbatim>\<open>'Please claim previous milestones first'\<close>, \<^verbatim>\<open>'Milestone already claimed'\<close>,
  \<^verbatim>\<open>'User not found'\<close>, and the success text with the reward in it. The
  description of the transaction is a template with the target in it; its fixed part
  is kept.
\<close>

datatype claimMessage =
    NotOnClientSide
  | InvalidMilestone
  | MilestoneNotClaimableYet
  | ReferralTargetNotReached
  | ClaimPreviousMilestonesFirst
  | MilestoneAlreadyClaimed
  | UserNotFound
  | SuccessfullyClaimed rat

record claimResult =
  success :: bool
  message :: claimMessage

definition claimReferralMilestone :: "string \<Rightarrow> int \<Rightarrow> db \<Rightarrow> claimResult \<times> db" where
  "claimReferralMilestone userId milestoneTarget w =
     (if \<not> clientSide w then (\<lparr>success = False, message = NotOnClientSide\<rparr>, w)
      else
        (case find (\<lambda>m. target m = milestoneTarget) getMilestoneConfig of
           None \<Rightarrow> (\<lparr>success = False, message = InvalidMilestone\<rparr>, w)
         | Some milestone \<Rightarrow>
             let report = getReferralMilestoneStatus userId w in
             (case find (\<lambda>m. ms_target m = milestoneTarget) (r_milestones report) of
                None \<Rightarrow> (\<lparr>success = False, message = MilestoneNotClaimableYet\<rparr>, w)
              | Some currentStatus \<Rightarrow>
                  if ms_status currentStatus \<noteq> claimable
                  then (\<lparr>success = False, message = MilestoneNotClaimableYet\<rparr>, w)
                  else if r_validReferrals report < milestoneTarget
                  then (\<lparr>success = False, message = ReferralTargetNotReached\<rparr>, w)
                  else if list_ex (\<lambda>m. ms_target m < milestoneTarget \<and> ms_status m \<noteq> claimed)
                            (r_milestones report)
                  then (\<lparr>success = False, message = ClaimPreviousMilestonesFirst\<rparr>, w)
                  else if filter (\<lambda>r. rc_userId r = userId \<and> rc_milestoneTarget r = milestoneTarget
                                        \<and> rc_status r = RewardClaimed) (referral_rewards w) \<noteq> []
                  then (\<lparr>success = False, message = MilestoneAlreadyClaimed\<rparr>, w)
                  else
                    (case getUserById userId w of
                       None \<Rightarrow> (\<lparr>success = False, message = UserNotFound\<rparr>, w)
                     | Some user \<Rightarrow>
                         let newBalance = orZero (balance (snd user)) + reward milestone;
                             w1 = saveUser (fst user, (snd user)\<lparr>balance := Some newBalance\<rparr>) w;
                             w2 = w1\<lparr>referral_rewards := referral_rewards w1 @
                                       [\<lparr>rc_userId = userId, rc_milestoneTarget = milestoneTarget,
                                         rc_amount = reward milestone, rc_status = RewardClaimed,
                                         rc_claimedAt = clock w\<rparr>]\<rparr>;
                             w3 = createTransaction
                                    \<lparr>tx_userId = userId, tx_userEmail = email (snd user),
                                     tx_type = Referral_Bonus, tx_amount = reward milestone,
                                     tx_status = TxCompleted, tx_date = clock w,
                                     tx_description = ''Referral milestone reward'',
                                     tx_referralUserId = None\<rparr> w2
                         in (\<lparr>success = True, message = SuccessfullyClaimed (reward milestone)\<rparr>, w3)))))"

text \<open>
  The status of a tier as the specification words it: claimed when a claimed record for
  its target exists; otherwise claimable when the count of valid referrals has reached
  the target and every tier with a strictly lower target is claimed; otherwise locked.
\<close>

definition tierStatus :: "int \<Rightarrow> int set \<Rightarrow> milestone \<Rightarrow> milestoneStatus" where
  "tierStatus v ct m =
     (if target m \<in> ct then claimed
      else if v \<ge> target m \<and> (\<forall>m' \<in> set getMilestoneConfig. target m' < target m \<longrightarrow> target m' \<in> ct)
      then claimable
      else locked)"

text \<open>
  The two things the status of a tier is stated from, read off the collections: whether
  a record of the user for the target with status claimed is among the reward claims,
  and the number of the user's valid referrals (a valid referral, in the words of the
  source: level 1, \<^verbatim>\<open>hasDeposited = true\<close>, and at least one purchased product).
\<close>

definition claimedRecord :: "string \<Rightarrow> db \<Rightarrow> int \<Rightarrow> bool" where
  "claimedRecord userId w t =
     list_ex (\<lambda>r. rc_userId r = userId \<and> rc_milestoneTarget r = t \<and> rc_status r = RewardClaimed)
       (referral_rewards w)"

definition validReferral :: "string \<Rightarrow> db \<Rightarrow> string \<times> AppUser \<Rightarrow> bool" where
  "validReferral userId w r =
     (referredBy (snd r) = Some userId \<and> hasDeposited (snd r) = Some True \<and>
      list_ex (\<lambda>p. pp_userId p = fst r) (purchased_products w))"

definition validReferralCount :: "string \<Rightarrow> db \<Rightarrow> int" where
  "validReferralCount userId w = int (length (filter (validReferral userId w) (users w)))"

subsection \<open>What one level of the deposit bonus writes\<close>

text \<open>
  Names for stating the properties of the deposit bonus: the ancestors of a user as the
  level methods look them up, the ancestor's document after a credit, the transaction
  and the notification of a level, and the store after a level has paid.
\<close>

definition ancestor1 :: "AppUser \<Rightarrow> db \<Rightarrow> (string \<times> AppUser) option" where
  "ancestor1 u w = getUserByRef (referredBy u) w"

definition ancestor2 :: "AppUser \<Rightarrow> db \<Rightarrow> (string \<times> AppUser) option" where
  "ancestor2 u w =
     (case ancestor1 u w of
        None \<Rightarrow> None
      | Some a \<Rightarrow> getUserByRef (referredBy (snd a)) w)"

definition ancestor3 :: "AppUser \<Rightarrow> db \<Rightarrow> (string \<times> AppUser) option" where
  "ancestor3 u w =
     (case ancestor2 u w of
        None \<Rightarrow> None
      | Some a \<Rightarrow> getUserByRef (referredBy (snd a)) w)"

definition credited :: "AppUser \<Rightarrow> rat \<Rightarrow> AppUser" where
  "credited a bonus =
     a\<lparr>balance := Some (orZero (balance a) + bonus),
       referralEarnings := Some (orZero (referralEarnings a) + bonus)\<rparr>"

definition levelDescription :: "nat \<Rightarrow> string" where
  "levelDescription level =
     (if level = 1 then ''Level 1 referral bonus for first deposit''
      else if level = 2 then ''Level 2 referral bonus for first deposit''
      else ''Level 3 referral bonus for first deposit'')"

definition bonusTransaction :: "nat \<Rightarrow> string \<times> AppUser \<Rightarrow> string \<Rightarrow> rat \<Rightarrow> int \<Rightarrow> Transaction" where
  "bonusTransaction level referrer userId bonus now =
     \<lparr>tx_userId = fst referrer, tx_userEmail = email (snd referrer),
      tx_type = Referral_Bonus, tx_amount = bonus, tx_status = TxCompleted,
      tx_date = now, tx_description = levelDescription level,
      tx_referralUserId = Some userId\<rparr>"

definition bonusNotification :: "nat \<Rightarrow> string \<times> AppUser \<Rightarrow> rat \<Rightarrow> int \<Rightarrow> Notification" where
  "bonusNotification level referrer bonus now =
     \<lparr>n_userId = fst referrer, n_message = ReferralBonusMessage level bonus,
      n_date = now, n_read = False, n_type = NtReferral\<rparr>"

definition paid :: "nat \<Rightarrow> string \<Rightarrow> (string \<times> AppUser) option \<Rightarrow> rat \<Rightarrow> db \<Rightarrow> db" where
  "paid level userId ancestor bonus w =
     (case ancestor of
        None \<Rightarrow> w
      | Some a \<Rightarrow>
          if bonus > 0 then
            w\<lparr>users := upsert (fst a) (credited (snd a) bonus) (users w),
              transactions := transactions w @ [bonusTransaction level a userId bonus (clock w)],
              notifications := notifications w @ [bonusNotification level a bonus (clock w)]\<rparr>
          else w)"

text \<open>The same without the notification: what is written when its creation throws.\<close>

definition paidUnnotified :: "nat \<Rightarrow> string \<Rightarrow> string \<times> AppUser \<Rightarrow> rat \<Rightarrow> db \<Rightarrow> db" where
  "paidUnnotified level userId a bonus w =
     w\<lparr>users := upsert (fst a) (credited (snd a) bonus) (users w),
       transactions := transactions w @ [bonusTransaction level a userId bonus (clock w)]\<rparr>"

text \<open>The Referral_Bonus transactions in a referrer's log that name a given user.\<close>

definition bonusesFor :: "string \<Rightarrow> string \<Rightarrow> db \<Rightarrow> Transaction list" where
  "bonusesFor referrerId userId w =
     filter (\<lambda>t. tx_userId t = referrerId \<and> tx_type t = Referral_Bonus \<and> tx_referralUserId t = Some userId)
       (transactions w)"



text \<open>
  A user document after the credits of a list of bonus transactions: each transaction
  recorded for the user raises balance and referral earnings by its amount.
\<close>

definition creditBonus :: "string \<Rightarrow> AppUser \<Rightarrow> Transaction \<Rightarrow> AppUser" where
  "creditBonus userId u t = (if tx_userId t = userId then credited u (tx_amount t) else u)"

definition creditBonuses :: "Transaction list \<Rightarrow> string \<Rightarrow> AppUser \<Rightarrow> AppUser" where
  "creditBonuses txs userId u = foldl (creditBonus userId) u txs"



subsection \<open>What the payout sweep writes for one product\<close>

text \<open>
  Names for stating the properties of the sweep. For a product as the sweep read it and
  the time of the sweep: the transactions it records (at most one), and what becomes of
  a stored product document. \<open>creditAll\<close> adds to a user's balance the amounts of the
  transactions recorded for that user.
\<close>

definition completionTransaction :: "PurchasedProduct \<Rightarrow> int \<Rightarrow> Transaction" where
  "completionTransaction product now =
     \<lparr>tx_userId = pp_userId product, tx_userEmail = '''', tx_type = Investment,
      tx_amount = finalPayout product, tx_status = TxCompleted, tx_date = now,
      tx_description = ''Plan completion payout from '' @ pp_name product,
      tx_referralUserId = None\<rparr>"

definition dailyTransaction :: "PurchasedProduct \<Rightarrow> int \<Rightarrow> Transaction" where
  "dailyTransaction product now =
     \<lparr>tx_userId = pp_userId product, tx_userEmail = '''', tx_type = Investment,
      tx_amount = dailyEarning product, tx_status = TxCompleted, tx_date = now,
      tx_description = ''Daily payout from '' @ pp_name product,
      tx_referralUserId = None\<rparr>"

definition payoutTransactions :: "int \<Rightarrow> PurchasedProduct \<Rightarrow> Transaction list" where
  "payoutTransactions now product =
     (if pp_status product = Completed \<or> now < startDate product then []
      else if now \<ge> endDate product then [completionTransaction product now]
      else if daysSinceLastPayout now product \<ge> 1 \<and> pp_planType product = Special
      then [dailyTransaction product now]
      else [])"

definition sweptBy :: "int \<Rightarrow> PurchasedProduct \<Rightarrow> PurchasedProduct \<Rightarrow> PurchasedProduct" where
  "sweptBy now product q =
     (if pp_id q \<noteq> pp_id product \<or> pp_status product = Completed \<or> now < startDate product then q
      else if now \<ge> endDate product then q\<lparr>pp_status := Completed\<rparr>
      else if daysSinceLastPayout now product \<ge> 1 then q\<lparr>lastPayoutDate := Some now\<rparr>
      else q)"

definition creditOne :: "string \<Rightarrow> AppUser \<Rightarrow> Transaction \<Rightarrow> AppUser" where
  "creditOne userId u t =
     (if tx_userId t = userId then u\<lparr>balance := Some (orZero (balance u) + tx_amount t)\<rparr> else u)"

definition creditAll :: "Transaction list \<Rightarrow> string \<Rightarrow> AppUser \<Rightarrow> AppUser" where
  "creditAll txs userId u = foldl (creditOne userId) u txs"

text \<open>
  How the store \<open>w'\<close> after the loop relates to the store \<open>w\<close> before it, for the
  products \<open>ps\<close> the loop went through: the log has grown by the transactions of each
  product in turn, every user document has been credited the amounts of the
  transactions recorded for that user and is otherwise as it was, every product
  document has undergone the change of each product processed, and nothing else has
  changed.
\<close>

definition sweepResult :: "PurchasedProduct list \<Rightarrow> db \<Rightarrow> db \<Rightarrow> bool" where
  "sweepResult ps w w' =
     (clientSide w' = clientSide w \<and> clock w' = clock w \<and>
      transactions w' = transactions w @ concat (map (payoutTransactions (clock w)) ps) \<and>
      purchased_products w' =
        map (\<lambda>q. foldl (\<lambda>q product. sweptBy (clock w) product q) q ps) (purchased_products w) \<and>
      (\<forall>userId. map_of (users w') userId =
         map_option (creditAll (concat (map (payoutTransactions (clock w)) ps)) userId)
           (map_of (users w) userId)) \<and>
      notifications w' = notifications w \<and> referral_rewards w' = referral_rewards w)"

text \<open>
  The data model's reading of the payout date: when set, it is not before the start date
  (the sweep sets it to the time of a sweep that found the product started). Then the
  date the code measures from, \<open>lastPayout\<close>, is the later of the two dates.
\<close>

definition payoutDateOk :: "PurchasedProduct \<Rightarrow> bool" where
  "payoutDateOk product =
     (case lastPayoutDate product of None \<Rightarrow> True | Some d \<Rightarrow> startDate product \<le> d)"

definition laterOfPayoutAndStart :: "PurchasedProduct \<Rightarrow> int" where
  "laterOfPayoutAndStart product =
     (case lastPayoutDate product of
        None \<Rightarrow> startDate product
      | Some d \<Rightarrow> max d (startDate product))"

subsection \<open>A small store for the concrete checks\<close>

text \<open>
  Four users in a referral chain: \<open>u\<close> was referred by \<open>a1\<close>, \<open>a1\<close> by \<open>a2\<close>,
  \<open>a2\<close> by \<open>a3\<close>; \<open>a3\<close> has no referrer. No transaction has been recorded.
\<close>

definition mkUser :: "string \<Rightarrow> rat option \<Rightarrow> string option \<Rightarrow> AppUser" where
  "mkUser e b r =
     \<lparr>email = e, balance = b, referredBy = r, referralEarnings = None, hasDeposited = Some True\<rparr>"

definition chainUsers :: "(string \<times> AppUser) list" where
  "chainUsers =
     [(''u'', mkUser ''u@example.org'' (Some 10000) (Some ''a1'')),
      (''a1'', mkUser ''a1@example.org'' (Some 50) (Some ''a2'')),
      (''a2'', mkUser ''a2@example.org'' None (Some ''a3'')),
      (''a3'', mkUser ''a3@example.org'' (Some 7) None)]"

definition chainStore :: db where
  "chainStore =
     \<lparr>clientSide = True, clock = 1000, users = chainUsers, transactions = [],
      notifications = [], purchased_products = [], referral_rewards = []\<rparr>"

definition chainStoreOnServer :: db where
  "chainStoreOnServer = chainStore\<lparr>clientSide := False\<rparr>"




text \<open>
  A promoter \<open>p\<close> with forty direct referrals, each of which has deposited and owns
  one product; nothing has been claimed.
\<close>

definition referralId :: "nat \<Rightarrow> string" where
  "referralId i = replicate (Suc i) CHR ''r''"

definition referralProduct :: "nat \<Rightarrow> PurchasedProduct" where
  "referralProduct i =
     \<lparr>pp_id = CHR ''q'' # referralId i, pp_userId = referralId i, pp_name = ''Special 1'',
      price = 3000, dailyEarning = 117, totalEarning = 42705, pp_status = Active,
      pp_planType = Special, startDate = 0, endDate = 365 * msPerDay, lastPayoutDate = None\<rparr>"

definition promoterStore :: db where
  "promoterStore =
     \<lparr>clientSide = True, clock = 1000,
      users = (''p'', mkUser ''p@example.org'' (Some 250) None) #
              map (\<lambda>i. (referralId i, mkUser ''r@example.org'' None (Some ''p''))) [0..<40],
      transactions = [], notifications = [],
      purchased_products = map referralProduct [0..<40],
      referral_rewards = []\<rparr>"

text \<open>
  The same promoter after the reward of target 5 has been claimed, with a record for
  target 15 that is pending.
\<close>

definition promoterClaimedStore :: db where
  "promoterClaimedStore =
     promoterStore\<lparr>referral_rewards :=
       [\<lparr>rc_userId = ''p'', rc_milestoneTarget = 5, rc_amount = 1000, rc_status = RewardClaimed,
         rc_claimedAt = 500\<rparr>,
        \<lparr>rc_userId = ''p'', rc_milestoneTarget = 15, rc_amount = 5000, rc_status = RewardPending,
         rc_claimedAt = 600\<rparr>]\<rparr>"

text \<open>
  One owner with one Special product: price 3,000, daily income 117, cycle of 365 days
  from time 0, no payout yet. The store is given the time of the sweep.
\<close>

definition special1 :: PurchasedProduct where
  "special1 =
     \<lparr>pp_id = ''pp1'', pp_userId = ''owner'', pp_name = ''Special 1'',
      price = 3000, dailyEarning = 117, totalEarning = 42705, pp_status = Active,
      pp_planType = Special, startDate = 0, endDate = 365 * msPerDay, lastPayoutDate = None\<rparr>"

definition lifecycleStore :: "int \<Rightarrow> db" where
  "lifecycleStore now =
     \<lparr>clientSide = True, clock = now,
      users = [(''owner'', mkUser ''owner@example.org'' (Some 10) None)],
      transactions = [], notifications = [],
      purchased_products = [special1], referral_rewards = []\<rparr>"

section \<open>Properties of the inventory manager\<close>



















lemma increasePurchasedCount_not_client:
  "\<not> inv_clientSide s \<Longrightarrow> increasePurchasedCount productId productType s = (False, s)"
  by (simp add: increasePurchasedCount_def)










subsection \<open>C1\<close>





subsection \<open>Interleaved calls\<close>










subsection \<open>C9\<close>



section \<open>Properties of the arithmetic\<close>

lemma roundHalfEven_error: "\<bar>of_int (roundHalfEven y) - y\<bar> \<le> 1 / 2"
proof -
  have "of_int \<lfloor>y\<rfloor> \<le> y" "y < of_int \<lfloor>y\<rfloor> + 1" by linarith+
  then show ?thesis
    by (auto simp: roundHalfEven_def Let_def abs_le_iff)
qed

lemma roundHalfEven_ge: "of_int j \<le> y \<Longrightarrow> j \<le> roundHalfEven y"
proof -
  assume "of_int j \<le> y"
  then have "j \<le> \<lfloor>y\<rfloor>" by (simp add: le_floor_iff)
  then show ?thesis by (auto simp: roundHalfEven_def Let_def)
qed

lemma roundHalfEven_near:
  assumes "\<bar>y - of_int m\<bar> < 1 / 2"
  shows "roundHalfEven y = m"
proof -
  have e: "\<bar>of_int (roundHalfEven y) - y\<bar> \<le> 1 / 2" by (rule roundHalfEven_error)
  have "\<bar>(of_int (roundHalfEven y) :: rat) - of_int m\<bar> < 1"
    using assms e by linarith
  then have "\<bar>of_int (roundHalfEven y - m) :: rat\<bar> < 1" by simp
  then have "\<bar>roundHalfEven y - m\<bar> < 1"
    by (metis of_int_abs of_int_less_1_iff)
  then show ?thesis by simp
qed

lemma exponent_ge: "emin \<le> exponent x"
  by (simp add: exponent_def)

lemma exponent_subnormal:
  assumes "\<bar>x\<bar> < 2 powi emin"
  shows "exponent x = emin"
proof -
  have "\<bar>x\<bar> * 2 powi (- emin) < 2 powi emin * 2 powi (- emin)"
    using assms by (simp add: mult_strict_right_mono)
  also have "\<dots> = (1::rat)" by (simp add: power_int_minus)
  finally have "\<lfloor>\<bar>x\<bar> * 2 powi (- emin)\<rfloor> \<le> 0" by (simp add: floor_le_iff)
  then have "bitlen \<lfloor>\<bar>x\<bar> * 2 powi (- emin)\<rfloor> = 0" by (simp add: bitlen_eq_zero_iff)
  then show ?thesis by (simp add: exponent_def)
qed

lemma exponent_normal:
  assumes "2 powi emin \<le> \<bar>x\<bar>"
  shows "2 powi (exponent x) \<le> \<bar>x\<bar>" and "\<bar>x\<bar> < 2 powi (exponent x + 1)"
proof -
  let ?y = "\<bar>x\<bar> * 2 powi (- emin)"
  let ?n = "\<lfloor>?y\<rfloor>"
  let ?b = "bitlen ?n"
  have "2 powi emin * 2 powi (- emin) \<le> ?y"
    using assms by (simp add: mult_right_mono)
  then have y1: "1 \<le> ?y" by (simp add: power_int_minus)
  then have n1: "1 \<le> ?n" by (simp add: le_floor_iff)
  then have n0: "0 < ?n" by linarith
  from bitlen_bounds [OF n0] have b: "2 ^ nat (?b - 1) \<le> ?n" "?n < 2 ^ nat ?b" by blast+
  have b1: "1 \<le> ?b" using n0 by (simp add: bitlen_alt_def)
  then have e: "exponent x = ?b - 1 + emin" by (simp add: exponent_def)
  have lo: "(2::rat) ^ nat (?b - 1) \<le> ?y"
  proof -
    have "(of_int (2 ^ nat (?b - 1)) :: rat) \<le> of_int ?n" using b(1) by (simp only: of_int_le_iff)
    also have "\<dots> \<le> ?y" by linarith
    finally show ?thesis by simp
  qed
  have hi: "?y < (2::rat) ^ nat ?b"
  proof -
    from b(2) have "?n + 1 \<le> 2 ^ nat ?b" by linarith
    then have "(of_int (?n + 1) :: rat) \<le> of_int (2 ^ nat ?b)" by (simp only: of_int_le_iff)
    moreover have "?y < of_int (?n + 1)" by linarith
    ultimately show ?thesis by simp
  qed
  have p: "(2::rat) powi (- emin) > 0" by simp
  have s: "\<bar>x\<bar> = ?y * 2 powi emin"
    by (simp add: power_int_minus)
  have "2 powi (exponent x) = (2::rat) powi (?b - 1) * 2 powi emin"
    unfolding e by (simp add: power_int_add)
  also have "\<dots> = 2 ^ nat (?b - 1) * 2 powi emin"
    using b1 by (simp add: power_int_nonneg_exp)
  also have "\<dots> \<le> ?y * 2 powi emin"
    using lo by (simp add: mult_right_mono)
  finally show "2 powi (exponent x) \<le> \<bar>x\<bar>" using s by simp
  have "\<bar>x\<bar> = ?y * 2 powi emin" by (rule s)
  also have "\<dots> < 2 ^ nat ?b * 2 powi emin"
    using hi by (simp add: mult_strict_right_mono)
  also have "\<dots> = (2::rat) powi ?b * 2 powi emin"
    using b1 by (simp add: power_int_nonneg_exp)
  also have "\<dots> = 2 powi (exponent x + 1)"
    unfolding e by (simp add: power_int_add)
  finally show "\<bar>x\<bar> < 2 powi (exponent x + 1)" .
qed

lemma pow2_less_iff: "(2::rat) powi m < 2 powi n \<longleftrightarrow> m < n"
proof
  assume l: "(2::rat) powi m < 2 powi n"
  show "m < n"
  proof (rule ccontr)
    assume "\<not> m < n"
    then have "n \<le> m" by simp
    then have "(2::rat) powi n \<le> 2 powi m" by (simp add: power_int_increasing)
    with l show False by simp
  qed
next
  assume "m < n"
  then show "(2::rat) powi m < 2 powi n" by (simp add: power_int_strict_increasing)
qed

lemma pow2_le_iff: "(2::rat) powi m \<le> 2 powi n \<longleftrightarrow> m \<le> n"
  using pow2_less_iff [of n m] by (simp add: not_less [symmetric])

lemma pow2_Suc: "(2::rat) powi (k + 1) = 2 powi k * 2"
  by (simp add: power_int_add_1)

lemma exponent_eqI:
  assumes "2 powi e \<le> \<bar>x\<bar>" and "\<bar>x\<bar> < 2 powi (e + 1)" and "emin \<le> e"
  shows "exponent x = e"
proof -
  have "(2::rat) powi emin \<le> 2 powi e"
    using assms(3) by (simp add: power_int_increasing)
  with assms(1) have n: "2 powi emin \<le> \<bar>x\<bar>" by linarith
  note b = exponent_normal [OF n]
  from b(1) assms(2) have "(2::rat) powi (exponent x) < 2 powi (e + 1)" by linarith
  then have 1: "exponent x < e + 1" by (simp add: pow2_less_iff)
  from assms(1) b(2) have "(2::rat) powi e < 2 powi (exponent x + 1)" by linarith
  then have 2: "e < exponent x + 1" by (simp add: pow2_less_iff)
  from 1 2 show ?thesis by linarith
qed

lemma double_error: "\<bar>double x - x\<bar> \<le> 2 powi (exponent x - 53)"
proof -
  let ?u = "(2::rat) powi (exponent x - 52)"
  have u: "0 < ?u" by simp
  have "double x - x = (of_int (roundHalfEven (x / ?u)) - x / ?u) * ?u"
    by (simp add: double_def algebra_simps)
  then have "\<bar>double x - x\<bar> = \<bar>of_int (roundHalfEven (x / ?u)) - x / ?u\<bar> * ?u"
    using u by (simp add: abs_mult)
  also have "\<dots> \<le> 1 / 2 * ?u"
    using roundHalfEven_error [of "x / ?u"] u by (simp add: mult_right_mono)
  also have "\<dots> = 2 powi (exponent x - 53)"
  proof -
    have "(2::rat) powi (exponent x - 52) = 2 powi (exponent x - 53 + 1)" by simp
    also have "\<dots> = 2 powi (exponent x - 53) * 2" by (rule pow2_Suc)
    finally show ?thesis by simp
  qed
  finally show ?thesis .
qed

lemma double_error_bound: "\<bar>double x - x\<bar> \<le> \<bar>x\<bar> / 2 ^ 53 + 2 powi (emin - 53)"
proof (cases "2 powi emin \<le> \<bar>x\<bar>")
  case True
  have "(2::rat) powi (exponent x + (- 53)) = 2 powi (exponent x) * 2 powi (- 53)"
    by (rule power_int_add) simp
  then have "(2::rat) powi (exponent x - 53) = 2 powi (exponent x) * 2 powi (- 53)"
    by simp
  also have "\<dots> \<le> \<bar>x\<bar> * 2 powi (- 53)"
    using exponent_normal(1) [OF True] by (rule mult_right_mono) simp
  also have "\<dots> = \<bar>x\<bar> / 2 ^ 53"
    by (simp only: power_int_minus power_int_numeral divide_inverse)
  finally have "(2::rat) powi (exponent x - 53) \<le> \<bar>x\<bar> / 2 ^ 53" .
  moreover have "(0::rat) \<le> 2 powi (emin - 53)" by simp
  ultimately show ?thesis using double_error [of x] by linarith
next
  case False
  then have "exponent x = emin" by (simp add: exponent_subnormal)
  with double_error [of x] have "\<bar>double x - x\<bar> \<le> 2 powi (emin - 53)" by simp
  moreover have "0 \<le> \<bar>x\<bar> / 2 ^ 53" by simp
  ultimately show ?thesis by linarith
qed

lemma tiny: "(2::rat) powi (emin - 53) \<le> 1 / 2 ^ 53"
proof -
  have "emin - 53 \<le> - 53" by (simp add: emin_def)
  then have "(2::rat) powi (emin - 53) \<le> 2 powi (- 53)"
    by (rule pow2_le_iff [THEN iffD2])
  also have "\<dots> = 1 / 2 ^ 53"
    by (simp only: power_int_minus power_int_numeral divide_inverse mult_1)
  finally show ?thesis .
qed

lemma double_eqI:
  assumes "2 powi e \<le> \<bar>x\<bar>" and "\<bar>x\<bar> < 2 powi (e + 1)" and "emin \<le> e"
    and "\<bar>x / 2 powi (e - 52) - of_int m\<bar> < 1 / 2"
  shows "double x = of_int m * 2 powi (e - 52)"
proof -
  from assms(1-3) have "exponent x = e" by (rule exponent_eqI)
  with assms(4) show ?thesis by (simp add: double_def roundHalfEven_near)
qed

lemma double_ge_multiple:
  assumes "of_int j * 2 powi (exponent x - 52) \<le> x"
  shows "of_int j * 2 powi (exponent x - 52) \<le> double x"
proof -
  let ?u = "(2::rat) powi (exponent x - 52)"
  have u: "0 < ?u" by simp
  from assms u have "of_int j \<le> x / ?u" by (simp add: pos_le_divide_eq)
  then have "j \<le> roundHalfEven (x / ?u)" by (rule roundHalfEven_ge)
  then have "(of_int j :: rat) \<le> of_int (roundHalfEven (x / ?u))" by simp
  with u show ?thesis by (simp add: double_def mult_right_mono)
qed

lemma double_0 [simp]: "double 0 = 0"
  by (simp add: double_def roundHalfEven_def)

lemma double_nonneg: "0 \<le> x \<Longrightarrow> 0 \<le> double x"
  using double_ge_multiple [of 0 x] by simp

text \<open>The literals.\<close>

lemma double_19: "double (19 / 100) = 3422735716801577 / 18014398509481984"
proof -
  have "double (19 / 100) = of_int 6845471433603154 * 2 powi (- 3 - 52)"
    by (rule double_eqI) (simp_all add: emin_def power_int_minus)
  then show ?thesis by (simp add: power_int_minus)
qed

lemma double_2: "double (2 / 100) = 5764607523034235 / 288230376151711744"
proof -
  have "double (2 / 100) = of_int 5764607523034235 * 2 powi (- 6 - 52)"
    by (rule double_eqI) (simp_all add: emin_def power_int_minus)
  then show ?thesis by (simp add: power_int_minus)
qed

lemma double_1: "double (1 / 100) = 5764607523034235 / 576460752303423488"
proof -
  have "double (1 / 100) = of_int 5764607523034235 * 2 powi (- 7 - 52)"
    by (rule double_eqI) (simp_all add: emin_def power_int_minus)
  then show ?thesis by (simp add: power_int_minus)
qed



lemma Math_round_eqI: "of_int n \<le> x + 1 / 2 \<Longrightarrow> x + 1 / 2 < of_int n + 1 \<Longrightarrow> Math_round x = of_int n"
  by (simp add: Math_round_def floor_eq_iff)

lemma exponent_less:
  assumes "\<bar>x\<bar> < 2 powi e" and "emin < e"
  shows "exponent x < e"
proof (cases "2 powi emin \<le> \<bar>x\<bar>")
  case True
  from exponent_normal(1) [OF True] assms(1) have "(2::rat) powi (exponent x) < 2 powi e" by linarith
  then show ?thesis by (simp add: pow2_less_iff)
next
  case False
  then have "exponent x = emin" by (simp add: exponent_subnormal)
  with assms(2) show ?thesis by simp
qed

lemma half_integer_multiple:
  assumes "e \<le> 51"
  shows "\<exists>j. (of_int (2 * n - 1) / 2 :: rat) = of_int j * 2 powi (e - 52)"
proof -
  define t where "t = nat (51 - e)"
  from assms have e: "e - 52 = - int (Suc t)" by (simp add: t_def)
  have "(2::rat) powi (e - 52) = inverse (2 ^ Suc t)"
    by (simp only: e power_int_minus power_int_of_nat)
  then have "of_int ((2 * n - 1) * 2 ^ t) * (2::rat) powi (e - 52) = of_int (2 * n - 1) / 2"
    by (simp add: field_simps)
  then show ?thesis by metis
qed

lemma Math_round_percent:
  fixes d k :: int
  assumes d: "0 \<le> d" "d \<le> 10 ^ 14" and k: "0 < k" "k \<le> 19"
    and c: "of_int k / 100 \<le> c" "c \<le> of_int k / 100 + 1 / 2 ^ 57"
  shows "Math_round (multiply (of_int d) c) = of_int ((k * d + 50) div 100)"
proof -
  define x where "x = (of_int d :: rat) * c"
  define y where "y = (of_int (k * d) :: rat) / 100"
  define p where "p = double x"
  define n where "n = (k * d + 50) div 100"
  define r where "r = (k * d + 50) mod 100"
  have dr: "(0::rat) \<le> of_int d" "(of_int d :: rat) \<le> 10 ^ 14"
  proof -
    show "(0::rat) \<le> of_int d" using d(1) by simp
    have "(of_int d :: rat) \<le> of_int (10 ^ 14)" using d(2) by (simp only: of_int_le_iff)
    then show "(of_int d :: rat) \<le> 10 ^ 14" by simp
  qed
  have kr: "(of_int k :: rat) \<le> 19" "(0::rat) < of_int k"
  proof -
    have "(of_int k :: rat) \<le> of_int 19" using k(2) by (simp only: of_int_le_iff)
    then show "(of_int k :: rat) \<le> 19" by simp
    show "(0::rat) < of_int k" using k(1) by simp
  qed
  have yx: "y \<le> x"
    unfolding x_def y_def using mult_left_mono [OF c(1) dr(1)] by (simp add: mult.commute)
  have y0: "0 \<le> y" unfolding y_def using d k by simp
  have "x - y = of_int d * (c - of_int k / 100)"
    by (simp add: x_def y_def algebra_simps)
  also have "\<dots> \<le> of_int d * (1 / 2 ^ 57)"
    using c(2) dr(1) by (intro mult_left_mono) simp_all
  also have "\<dots> \<le> 10 ^ 14 * (1 / 2 ^ 57)"
    using dr(2) by (intro mult_right_mono) simp_all
  also have "\<dots> < 1 / 1000" by simp
  finally have xy: "x - y < 1 / 1000" .
  have "y \<le> 19 * 10 ^ 14 / 100"
  proof -
    have "(of_int (k * d) :: rat) = of_int k * of_int d" by simp
    also have "\<dots> \<le> 19 * 10 ^ 14"
      using kr dr by (intro mult_mono) simp_all
    finally show ?thesis by (simp add: y_def)
  qed
  with xy have xb: "x < 2 * 10 ^ 13" by simp
  from yx y0 have x0: "0 \<le> x" by simp
  have "\<bar>p - x\<bar> \<le> \<bar>x\<bar> / 2 ^ 53 + 2 powi (emin - 53)"
    unfolding p_def by (rule double_error_bound)
  also have "\<dots> \<le> \<bar>x\<bar> / 2 ^ 53 + 1 / 2 ^ 53"
    using tiny by simp
  also have "\<dots> < 3 / 1000"
    using x0 xb by simp
  finally have "\<bar>p - x\<bar> < 3 / 1000" .
  then have px: "p < x + 3 / 1000" "x < p + 3 / 1000" by linarith+
  have nr: "k * d + 50 = 100 * n + r" "0 \<le> r" "r < 100"
    by (simp_all add: n_def r_def)
  have "y + 1 / 2 = (of_int (k * d + 50) :: rat) / 100"
    by (simp add: y_def)
  also have "\<dots> = of_int n + of_int r / 100"
    unfolding nr(1) by simp
  finally have yn: "y + 1 / 2 = of_int n + of_int r / 100" .
  have hi: "p + 1 / 2 < of_int n + 1"
  proof -
    from nr(3) have "r \<le> 99" by simp
    then have "(of_int r :: rat) \<le> of_int 99" by (simp only: of_int_le_iff)
    then have "(of_int r :: rat) \<le> 99" by simp
    with yn px xy show ?thesis by linarith
  qed
  have lo: "of_int n \<le> p + 1 / 2"
  proof (cases "r = 0")
    case False
    with nr(2) have "1 \<le> r" by simp
    then have "(1::rat) \<le> of_int r" by simp
    with yn px yx show ?thesis by linarith
  next
    case True
    with yn have yh: "y = of_int (2 * n - 1) / 2" by simp
    have "\<bar>x\<bar> < 2 powi 45" using x0 xb by simp
    then have "exponent x < 45" by (rule exponent_less) (simp add: emin_def)
    then have "exponent x \<le> 51" by simp
    from half_integer_multiple [OF this, of n] obtain j
      where j: "y = of_int j * 2 powi (exponent x - 52)" unfolding yh by blast
    from yx have "of_int j * 2 powi (exponent x - 52) \<le> x" unfolding j .
    then have "of_int j * 2 powi (exponent x - 52) \<le> double x" by (rule double_ge_multiple)
    then have "y \<le> p" unfolding j p_def .
    with yn True show ?thesis by simp
  qed
  from lo hi have "Math_round p = of_int n" by (rule Math_round_eqI)
  then show ?thesis by (simp add: p_def x_def n_def multiply_def)
qed

lemma percent_19:
  assumes "0 \<le> d" "d \<le> 10 ^ 14"
  shows "Math_round (multiply (of_int d) (double (19 / 100))) = of_int ((19 * d + 50) div 100)"
  using assms unfolding double_19 by (rule Math_round_percent) simp_all

lemma percent_2:
  assumes "0 \<le> d" "d \<le> 10 ^ 14"
  shows "Math_round (multiply (of_int d) (double (2 / 100))) = of_int ((2 * d + 50) div 100)"
  using assms unfolding double_2 by (rule Math_round_percent) simp_all

lemma percent_1:
  assumes "0 \<le> d" "d \<le> 10 ^ 14"
  shows "Math_round (multiply (of_int d) (double (1 / 100))) = of_int ((1 * d + 50) div 100)"
  using assms unfolding double_1 by (rule Math_round_percent) simp_all

lemma roundHalfEven_le: "y \<le> of_int j \<Longrightarrow> roundHalfEven y \<le> j"
proof -
  assume a: "y \<le> of_int j"
  have f: "of_int \<lfloor>y\<rfloor> \<le> y" by linarith
  show ?thesis
  proof (cases "y = of_int j")
    case True
    then show ?thesis by (simp add: roundHalfEven_def)
  next
    case False
    with a have "y < of_int j" by simp
    then have "\<lfloor>y\<rfloor> < j" by (simp add: floor_less_iff)
    then show ?thesis by (auto simp: roundHalfEven_def Let_def)
  qed
qed

lemma double_nonpos: "x \<le> 0 \<Longrightarrow> double x \<le> 0"
proof -
  assume "x \<le> 0"
  then have "x / 2 powi (exponent x - 52) \<le> of_int 0"
    by (simp add: divide_nonpos_pos)
  then have "roundHalfEven (x / 2 powi (exponent x - 52)) \<le> 0" by (rule roundHalfEven_le)
  then have "(of_int (roundHalfEven (x / 2 powi (exponent x - 52))) :: rat) \<le> 0" by simp
  then show ?thesis by (simp add: double_def mult_nonpos_nonneg)
qed

lemma double_small: "x \<le> 2 / 5 \<Longrightarrow> double x < 1 / 2"
proof (cases "x \<le> 0")
  case True
  then have "double x \<le> 0" by (rule double_nonpos)
  then show ?thesis by simp
next
  case False
  assume "x \<le> 2 / 5"
  have "\<bar>double x - x\<bar> \<le> \<bar>x\<bar> / 2 ^ 53 + 1 / 2 ^ 53"
    using double_error_bound [of x] tiny by linarith
  with False \<open>x \<le> 2 / 5\<close> show ?thesis by simp
qed

lemma double_less_half: "double x < 1 / 2 \<Longrightarrow> x < 51 / 100"
proof (rule ccontr)
  assume d: "double x < 1 / 2" and "\<not> x < 51 / 100"
  then have x: "51 / 100 \<le> x" by simp
  have "\<bar>double x - x\<bar> \<le> \<bar>x\<bar> / 2 ^ 53 + 1 / 2 ^ 53"
    using double_error_bound [of x] tiny by linarith
  with x d show False by simp
qed

lemma Math_round_nonpositive_iff: "Math_round x \<le> 0 \<longleftrightarrow> x < 1 / 2"
proof -
  have "Math_round x \<le> 0 \<longleftrightarrow> \<lfloor>x + 1 / 2\<rfloor> < 1"
    by (simp add: Math_round_def)
  also have "\<dots> \<longleftrightarrow> x + 1 / 2 < 1"
    by (simp add: floor_less_iff)
  also have "\<dots> \<longleftrightarrow> x < 1 / 2"
    by auto
  finally show ?thesis .
qed

lemma Math_round_zero_iff: "Math_round x = 0 \<longleftrightarrow> - (1 / 2) \<le> x \<and> x < 1 / 2"
proof -
  have "Math_round x = 0 \<longleftrightarrow> \<lfloor>x + 1 / 2\<rfloor> = 0"
    by (simp add: Math_round_def)
  also have "\<dots> \<longleftrightarrow> 0 \<le> x + 1 / 2 \<and> x + 1 / 2 < 1"
    by (simp add: floor_eq_iff)
  also have "\<dots> \<longleftrightarrow> - (1 / 2) \<le> x \<and> x < 1 / 2"
    by auto
  finally show ?thesis .
qed

lemma literal_bounds:
  "19 / 100 \<le> double (19 / 100)" "double (19 / 100) \<le> 191 / 1000"
  "0 < double (2 / 100)" "double (2 / 100) \<le> 21 / 1000"
  "0 < double (1 / 100)" "double (1 / 100) \<le> 11 / 1000"
  unfolding double_19 double_2 double_1 by simp_all

lemma small_deposit_rounds_to_0:
  assumes "0 \<le> d" and "d \<le> 2"
  shows "Math_round (multiply d (double (19 / 100))) = 0"
proof -
  let ?x = "d * double (19 / 100)"
  from literal_bounds(1) have c0: "0 \<le> double (19 / 100)" by linarith
  have x0: "0 \<le> ?x" using assms(1) c0 by simp
  have "?x \<le> 2 * (191 / 1000)"
    using assms literal_bounds(2) c0 by (intro mult_mono) simp_all
  then have "?x \<le> 2 / 5" by simp
  then have "double ?x < 1 / 2" by (rule double_small)
  moreover from x0 have "0 \<le> double ?x" by (rule double_nonneg)
  ultimately show ?thesis by (simp add: Math_round_zero_iff multiply_def)
qed

lemma lower_levels_nonpositive:
  assumes "Math_round (multiply d (double (19 / 100))) \<le> 0"
  shows "Math_round (multiply d (double (2 / 100))) \<le> 0"
    and "Math_round (multiply d (double (1 / 100))) \<le> 0"
proof -
  from assms have "double (d * double (19 / 100)) < 1 / 2"
    by (simp only: Math_round_nonpositive_iff multiply_def)
  then have "d * double (19 / 100) < 51 / 100" by (rule double_less_half)
  moreover have "d * (19 / 100) \<le> d * double (19 / 100)" if "0 \<le> d"
    using that literal_bounds(1) by (rule mult_left_mono [rotated])
  ultimately have d: "d < 3"
    by (cases "0 \<le> d") simp_all
  have "d * double (2 / 100) \<le> 3 * (21 / 1000)"
  proof (cases "0 \<le> d")
    case True
    with d literal_bounds(3,4) show ?thesis by (intro mult_mono) simp_all
  next
    case False
    then have "d * double (2 / 100) \<le> 0"
      using literal_bounds(3) by (simp only: mult_le_0_iff) simp
    then show ?thesis by simp
  qed
  then have "d * double (2 / 100) \<le> 2 / 5" by simp
  then have "double (d * double (2 / 100)) < 1 / 2" by (rule double_small)
  then show "Math_round (multiply d (double (2 / 100))) \<le> 0"
    by (simp only: Math_round_nonpositive_iff multiply_def)
  have "d * double (1 / 100) \<le> 3 * (11 / 1000)"
  proof (cases "0 \<le> d")
    case True
    with d literal_bounds(5,6) show ?thesis by (intro mult_mono) simp_all
  next
    case False
    then have "d * double (1 / 100) \<le> 0"
      using literal_bounds(5) by (simp only: mult_le_0_iff) simp
    then show ?thesis by simp
  qed
  then have "d * double (1 / 100) \<le> 2 / 5" by simp
  then have "double (d * double (1 / 100)) < 1 / 2" by (rule double_small)
  then show "Math_round (multiply d (double (1 / 100))) \<le> 0"
    by (simp only: Math_round_nonpositive_iff multiply_def)
qed

lemma bonus_10000:
  "Math_round (multiply 10000 (double (19 / 100))) = 1900"
  "Math_round (multiply 10000 (double (2 / 100))) = 200"
  "Math_round (multiply 10000 (double (1 / 100))) = 100"
  using percent_19 [of 10000] percent_2 [of 10000] percent_1 [of 10000] by simp_all

lemma bonus_155:
  "Math_round (multiply 155 (double (19 / 100))) = 29"
  "Math_round (multiply 155 (double (2 / 100))) = 3"
  "Math_round (multiply 155 (double (1 / 100))) = 2"
  using percent_19 [of 155] percent_2 [of 155] percent_1 [of 155] by simp_all



text \<open>The values used in the concrete checks, as written and as the simplifier normalises them.\<close>

lemma bonus_values:
  "Math_round (multiply 10000 (double (19 / 100))) = 1900"
  "Math_round (multiply 10000 (double (1 / 50))) = 200"
  "Math_round (multiply 10000 (double (1 / 100))) = 100"
  "Math_round (multiply 155 (double (19 / 100))) = 29"
  "Math_round (multiply 155 (double (1 / 50))) = 3"
  "Math_round (multiply 155 (double (1 / 100))) = 2"
  using bonus_10000 bonus_155 by simp_all

section \<open>Properties of the deposit bonus\<close>

lemma map_of_upsert: "map_of (upsert k v xs) = (map_of xs)(k \<mapsto> v)"
  by (induction xs) (auto simp: fun_eq_iff)

lemma getUserById_saveUser:
  "getUserById k (saveUser (k', v) w) = (if k = k' then Some (k, v) else getUserById k w)"
  by (simp add: getUserById_def saveUser_def map_of_upsert)

lemma getUserById_fst: "getUserById k w = Some a \<Longrightarrow> fst a = k"
  by (auto simp: getUserById_def)


lemma getUserByRef_Some: "k \<noteq> [] \<Longrightarrow> getUserByRef (Some k) w = getUserById k w"
  by (simp add: getUserByRef_def)


lemma not_truthy_getUserByRef: "\<not> truthy r \<Longrightarrow> getUserByRef r w = None"
  by (auto simp: getUserByRef_def truthy_def split: option.splits)





lemma clientSide_paid [simp]: "clientSide (paid level userId a b w) = clientSide w"
  by (simp add: paid_def split: option.splits)

lemma clock_paid [simp]: "clock (paid level userId a b w) = clock w"
  by (simp add: paid_def split: option.splits)

lemma referredBy_credited [simp]: "referredBy (credited a b) = referredBy a"
  by (simp add: credited_def)

lemma getUserById_paid_Some:
  "getUserById k (paid level userId (Some a) b w) =
     (if b > 0 \<and> k = fst a then Some (k, credited (snd a) b) else getUserById k w)"
  by (simp add: paid_def getUserById_def map_of_upsert)

lemma getUserById_paid_None [simp]: "getUserById k (paid level userId None b w) = getUserById k w"
  by (simp add: paid_def)

lemma paid_nonpositive: "b \<le> 0 \<Longrightarrow> paid level userId a b w = w"
  by (simp add: paid_def split: option.splits)

lemma getUserByRef_paid_Some:
  "getUserByRef r (paid level userId (Some a) b w) =
     (if b > 0 \<and> r = Some (fst a) \<and> fst a \<noteq> [] then Some (fst a, credited (snd a) b)
      else getUserByRef r w)"
  by (auto simp: getUserByRef_def getUserById_paid_Some split: option.splits)

lemma getUserByRef_paid_None [simp]: "getUserByRef r (paid level userId None b w) = getUserByRef r w"
  by (simp add: paid_def)


lemma alreadyPaid_iff:
  "alreadyPaid referrerId userId w \<longleftrightarrow> clientSide w \<and> bonusesFor referrerId userId w \<noteq> []"
  by (auto simp: alreadyPaid_def getTransactionsByUser_def bonusesFor_def list_ex_iff filter_empty_conv)

text \<open>On the server the check of the log finds nothing, and creating a notification throws.\<close>

lemma processLevel1_server:
  assumes "\<not> clientSide w" and "ancestor1 (snd user) w = Some a"
    and "Math_round (multiply d (double (19 / 100))) > 0"
  shows "processLevel1ReferralBonus user d w =
           (Inl FirebaseNotInitialized, paidUnnotified 1 (fst user) a (Math_round (multiply d (double (19 / 100)))) w)"
  using assms
  by (simp add: processLevel1ReferralBonus_def ancestor1_def paidUnnotified_def Let_def saveUser_def
        createTransaction_def createNotification_def credited_def bonusTransaction_def
        levelDescription_def)

lemma not_alreadyPaid_server: "\<not> clientSide w \<Longrightarrow> \<not> alreadyPaid referrerId userId w"
  by (simp add: alreadyPaid_iff)

text \<open>
  A level pays the ancestor it finds in the store it runs on; crediting changes neither
  the email nor the referrer of a document, so the later levels find the same ancestors
  and record the same transactions as they would on the store the call started from.
\<close>

lemma credited_fields [simp]:
  "email (credited u b) = email u" "referredBy (credited u b) = referredBy u"
  by (simp_all add: credited_def)

lemma creditBonuses_fields [simp]:
  "email (creditBonuses txs k u) = email u" "referredBy (creditBonuses txs k u) = referredBy u"
  unfolding creditBonuses_def
  by (induction txs arbitrary: u) (simp_all add: creditBonus_def)












lemma bonusTransaction_fields [simp]:
  "tx_userId (bonusTransaction level a userId b now) = fst a"
  "tx_amount (bonusTransaction level a userId b now) = b"
  "tx_type (bonusTransaction level a userId b now) = Referral_Bonus"
  "tx_referralUserId (bonusTransaction level a userId b now) = Some userId"
  by (simp_all add: bonusTransaction_def)



subsection \<open>C7\<close>


lemma chain_lookups:
  "getUserById ''u'' chainStore = Some (''u'', mkUser ''u@example.org'' (Some 10000) (Some ''a1''))"
  "getUserById ''a1'' chainStore = Some (''a1'', mkUser ''a1@example.org'' (Some 50) (Some ''a2''))"
  "getUserById ''a2'' chainStore = Some (''a2'', mkUser ''a2@example.org'' None (Some ''a3''))"
  "getUserById ''a3'' chainStore = Some (''a3'', mkUser ''a3@example.org'' (Some 7) None)"
  by (simp_all add: getUserById_def chainStore_def chainUsers_def)

lemma chain_ancestors:
  "ancestor1 (mkUser ''u@example.org'' (Some 10000) (Some ''a1'')) chainStore
     = Some (''a1'', mkUser ''a1@example.org'' (Some 50) (Some ''a2''))"
  "ancestor2 (mkUser ''u@example.org'' (Some 10000) (Some ''a1'')) chainStore
     = Some (''a2'', mkUser ''a2@example.org'' None (Some ''a3''))"
  "ancestor3 (mkUser ''u@example.org'' (Some 10000) (Some ''a1'')) chainStore
     = Some (''a3'', mkUser ''a3@example.org'' (Some 7) None)"
  by (simp_all add: ancestor1_def ancestor2_def ancestor3_def getUserByRef_def chain_lookups mkUser_def)


lemma chain_server_users: "getUserById k chainStoreOnServer = getUserById k chainStore"
  by (simp add: chainStoreOnServer_def getUserById_def)

lemma chain_server_lookups:
  "getUserById k chainStoreOnServer = getUserById k chainStore"
  "ancestor1 v chainStoreOnServer = ancestor1 v chainStore"
  "\<not> clientSide chainStoreOnServer"
  "clock chainStoreOnServer = 1000"
  "transactions chainStoreOnServer = []"
  by (simp_all add: chain_server_users ancestor1_def getUserByRef_def split: option.splits)
     (simp_all add: chainStoreOnServer_def chainStore_def)






subsection \<open>C10\<close>

lemma level1_nonpositive:
  "Math_round (multiply d (double (19 / 100))) \<le> 0 \<Longrightarrow> processLevel1ReferralBonus user d w = (Inr (), w)"
  by (simp add: processLevel1ReferralBonus_def Let_def split: option.splits)

lemma level2_nonpositive:
  "Math_round (multiply d (double (2 / 100))) \<le> 0 \<Longrightarrow> processLevel2ReferralBonus user d w = (Inr (), w)"
  by (simp add: processLevel2ReferralBonus_def Let_def split: option.splits)

lemma level3_nonpositive:
  "Math_round (multiply d (double (1 / 100))) \<le> 0 \<Longrightarrow> processLevel3ReferralBonus user d w = (Inr (), w)"
  by (simp add: processLevel3ReferralBonus_def Let_def split: option.splits)

lemma deposit_nonpositive:
  assumes "Math_round (multiply d (double (19 / 100))) \<le> 0"
  shows "processDepositReferralBonus userId d w = (Inr (), w)"
  using level1_nonpositive [OF assms] level2_nonpositive [OF lower_levels_nonpositive(1) [OF assms]]
    level3_nonpositive [OF lower_levels_nonpositive(2) [OF assms]]
  by (simp add: processDepositReferralBonus_def split: option.splits)

text \<open>
  C10. For every deposit amount whose rounded bonus at a level is 0, the method of that
  level returns without error and leaves the store as it was, whatever ancestors exist:
  no balance update, no transaction, no notification. A deposit between 0 and 2 rounds
  to 0 at level 1; and when the level-1 bonus is 0, so are the other two, and the whole
  of \<^verbatim>\<open>processDepositReferralBonus\<close> leaves the store as it was.
\<close>

theorem zero_bonus_is_skipped:
  "(Math_round (multiply depositAmount (double (19 / 100))) = 0 \<longrightarrow>
      processLevel1ReferralBonus user depositAmount w = (Inr (), w)) \<and>
   (Math_round (multiply depositAmount (double (2 / 100))) = 0 \<longrightarrow>
      processLevel2ReferralBonus user depositAmount w = (Inr (), w)) \<and>
   (Math_round (multiply depositAmount (double (1 / 100))) = 0 \<longrightarrow>
      processLevel3ReferralBonus user depositAmount w = (Inr (), w)) \<and>
   (0 \<le> depositAmount \<and> depositAmount \<le> 2 \<longrightarrow> Math_round (multiply depositAmount (double (19 / 100))) = 0) \<and>
   (Math_round (multiply depositAmount (double (19 / 100))) = 0 \<longrightarrow>
      processDepositReferralBonus userId depositAmount w = (Inr (), w))"
proof (intro conjI impI)
  assume "Math_round (multiply depositAmount (double (19 / 100))) = 0"
  then show "processLevel1ReferralBonus user depositAmount w = (Inr (), w)"
    by (simp add: level1_nonpositive)
next
  assume "Math_round (multiply depositAmount (double (2 / 100))) = 0"
  then show "processLevel2ReferralBonus user depositAmount w = (Inr (), w)"
    by (simp add: level2_nonpositive)
next
  assume "Math_round (multiply depositAmount (double (1 / 100))) = 0"
  then show "processLevel3ReferralBonus user depositAmount w = (Inr (), w)"
    by (simp add: level3_nonpositive)
next
  assume "0 \<le> depositAmount \<and> depositAmount \<le> 2"
  then show "Math_round (multiply depositAmount (double (19 / 100))) = 0"
    by (simp add: small_deposit_rounds_to_0)
next
  assume "Math_round (multiply depositAmount (double (19 / 100))) = 0"
  then show "processDepositReferralBonus userId depositAmount w = (Inr (), w)"
    by (simp add: deposit_nonpositive)
qed

text \<open>
  On the chain of four users every ancestor exists. A deposit of 2 writes nothing at
  all; a deposit of 10 rounds to 0 at levels 2 and 3, whose methods write nothing.
\<close>

theorem zero_bonus_is_skipped_witness:
  "(0::rat) \<le> 2 \<and> (2::rat) \<le> 2 \<and>
   Math_round (multiply 2 (double (19 / 100))) = 0 \<and>
   ancestor1 (mkUser ''u@example.org'' (Some 10000) (Some ''a1'')) chainStore \<noteq> None \<and>
   processLevel1ReferralBonus (''u'', mkUser ''u@example.org'' (Some 10000) (Some ''a1'')) 2 chainStore
     = (Inr (), chainStore) \<and>
   processDepositReferralBonus ''u'' 2 chainStore = (Inr (), chainStore) \<and>
   Math_round (multiply 10 (double (2 / 100))) = 0 \<and>
   Math_round (multiply 10 (double (1 / 100))) = 0 \<and>
   ancestor2 (mkUser ''u@example.org'' (Some 10000) (Some ''a1'')) chainStore \<noteq> None \<and>
   ancestor3 (mkUser ''u@example.org'' (Some 10000) (Some ''a1'')) chainStore \<noteq> None \<and>
   processLevel2ReferralBonus (''u'', mkUser ''u@example.org'' (Some 10000) (Some ''a1'')) 10 chainStore
     = (Inr (), chainStore) \<and>
   processLevel3ReferralBonus (''u'', mkUser ''u@example.org'' (Some 10000) (Some ''a1'')) 10 chainStore
     = (Inr (), chainStore)"
proof -
  let ?user = "(''u'', mkUser ''u@example.org'' (Some 10000) (Some ''a1''))"
  note t2 = zero_bonus_is_skipped [of 2 ?user chainStore "''u''"]
  note t10 = zero_bonus_is_skipped [of 10 ?user chainStore "''u''"]
  have r2: "Math_round (multiply 2 (double (19 / 100))) = 0"
    using t2 by simp
  have r10: "Math_round (multiply 10 (double (2 / 100))) = 0" "Math_round (multiply 10 (double (1 / 100))) = 0"
    using percent_2 [of 10] percent_1 [of 10] by simp_all
  from t2 r2 have l1: "processLevel1ReferralBonus ?user 2 chainStore = (Inr (), chainStore)"
    and dep: "processDepositReferralBonus ''u'' 2 chainStore = (Inr (), chainStore)"
    by blast+
  from t10 r10 have l2: "processLevel2ReferralBonus ?user 10 chainStore = (Inr (), chainStore)"
    and l3: "processLevel3ReferralBonus ?user 10 chainStore = (Inr (), chainStore)"
    by blast+
  have a: "ancestor1 (mkUser ''u@example.org'' (Some 10000) (Some ''a1'')) chainStore \<noteq> None"
      "ancestor2 (mkUser ''u@example.org'' (Some 10000) (Some ''a1'')) chainStore \<noteq> None"
      "ancestor3 (mkUser ''u@example.org'' (Some 10000) (Some ''a1'')) chainStore \<noteq> None"
    by (simp_all add: chain_ancestors)
  from r2 r10 l1 dep l2 l3 a show ?thesis by simp
qed

subsection \<open>C2\<close>











subsection \<open>C8\<close>

text \<open>
  C8 (as amended). Within one call of \<^verbatim>\<open>processDepositReferralBonus\<close> the three levels
  are processed in order inside one \<^verbatim>\<open>try\<close> whose \<^verbatim>\<open>catch\<close> rethrows: an error thrown
  while a level is processed ends the call with that error and with the store as the
  throw left it, so the later levels are not attempted, and what was written before the
  throw stays. In particular on the server, where creating the notification throws, a
  call for a user with a level-1 ancestor and a positive level-1 bonus credits that
  ancestor, records its transaction, and throws.
\<close>

theorem level_failure_ends_the_call:
  assumes u: "getUserById userId w = Some user"
    and r: "referredBy (snd user) = Some referrerId" "referrerId \<noteq> []"
    and np: "\<not> alreadyPaid referrerId userId w"
  shows "(\<forall>e w1. processLevel1ReferralBonus user depositAmount w = (Inl e, w1) \<longrightarrow>
            processDepositReferralBonus userId depositAmount w = (Inl e, w1)) \<and>
         (\<forall>w1 e w2. processLevel1ReferralBonus user depositAmount w = (Inr (), w1) \<longrightarrow>
            processLevel2ReferralBonus user depositAmount w1 = (Inl e, w2) \<longrightarrow>
            processDepositReferralBonus userId depositAmount w = (Inl e, w2)) \<and>
         (\<forall>w1 w2. processLevel1ReferralBonus user depositAmount w = (Inr (), w1) \<longrightarrow>
            processLevel2ReferralBonus user depositAmount w1 = (Inr (), w2) \<longrightarrow>
            processDepositReferralBonus userId depositAmount w =
              processLevel3ReferralBonus user depositAmount w2) \<and>
         (\<forall>a1. \<not> clientSide w \<longrightarrow> ancestor1 (snd user) w = Some a1 \<longrightarrow>
            Math_round (multiply depositAmount (double (19 / 100))) > 0 \<longrightarrow>
            processDepositReferralBonus userId depositAmount w =
              (Inl FirebaseNotInitialized,
               paidUnnotified 1 userId a1 (Math_round (multiply depositAmount (double (19 / 100)))) w))"
proof -
  have i: "fst user = userId" using u by (rule getUserById_fst)
  have 1: "processDepositReferralBonus userId depositAmount w = (Inl e, w1)"
    if "processLevel1ReferralBonus user depositAmount w = (Inl e, w1)" for e w1
    using that u r np by (simp add: processDepositReferralBonus_def)
  have 2: "processDepositReferralBonus userId depositAmount w = (Inl e, w2)"
    if "processLevel1ReferralBonus user depositAmount w = (Inr (), w1)"
      and "processLevel2ReferralBonus user depositAmount w1 = (Inl e, w2)" for e w1 w2
    using that u r np by (simp add: processDepositReferralBonus_def)
  have 3: "processDepositReferralBonus userId depositAmount w =
             processLevel3ReferralBonus user depositAmount w2"
    if "processLevel1ReferralBonus user depositAmount w = (Inr (), w1)"
      and "processLevel2ReferralBonus user depositAmount w1 = (Inr (), w2)" for w1 w2
    using that u r np by (simp add: processDepositReferralBonus_def)
  have 4: "processDepositReferralBonus userId depositAmount w =
              (Inl FirebaseNotInitialized,
               paidUnnotified 1 userId a1 (Math_round (multiply depositAmount (double (19 / 100)))) w)"
    if "\<not> clientSide w" and "ancestor1 (snd user) w = Some a1"
      and "Math_round (multiply depositAmount (double (19 / 100))) > 0" for a1
    using 1 [OF processLevel1_server [OF that]] i by simp
  from 1 2 3 4 show ?thesis by blast
qed

text \<open>
  The chain of four users on the server, a deposit of 10,000: level 1 throws after the
  credit and the transaction for \<open>a1\<close>, and that is where the call ends.
\<close>

theorem level_failure_ends_the_call_witness:
  "getUserById ''u'' chainStoreOnServer = Some (''u'', mkUser ''u@example.org'' (Some 10000) (Some ''a1'')) \<and>
   \<not> alreadyPaid ''a1'' ''u'' chainStoreOnServer \<and>
   \<not> clientSide chainStoreOnServer \<and>
   ancestor1 (mkUser ''u@example.org'' (Some 10000) (Some ''a1'')) chainStoreOnServer =
     Some (''a1'', mkUser ''a1@example.org'' (Some 50) (Some ''a2'')) \<and>
   Math_round (multiply 10000 (double (19 / 100))) > 0 \<and>
   processLevel1ReferralBonus (''u'', mkUser ''u@example.org'' (Some 10000) (Some ''a1'')) 10000
       chainStoreOnServer =
     (Inl FirebaseNotInitialized,
      paidUnnotified 1 ''u'' (''a1'', mkUser ''a1@example.org'' (Some 50) (Some ''a2'')) 1900
        chainStoreOnServer) \<and>
   processDepositReferralBonus ''u'' 10000 chainStoreOnServer =
     (Inl FirebaseNotInitialized,
      paidUnnotified 1 ''u'' (''a1'', mkUser ''a1@example.org'' (Some 50) (Some ''a2'')) 1900
        chainStoreOnServer)"
proof -
  let ?u = "mkUser ''u@example.org'' (Some 10000) (Some ''a1'')"
  let ?a1 = "(''a1'', mkUser ''a1@example.org'' (Some 50) (Some ''a2''))"
  have u: "getUserById ''u'' chainStoreOnServer = Some (''u'', ?u)"
    by (simp add: chain_server_lookups chain_lookups)
  have r: "referredBy (snd (''u'', ?u)) = Some ''a1''" "''a1'' \<noteq> []"
    by (simp_all add: mkUser_def)
  have np: "\<not> alreadyPaid ''a1'' ''u'' chainStoreOnServer"
    by (simp add: not_alreadyPaid_server chain_server_lookups)
  have a0: "ancestor1 ?u chainStoreOnServer = Some ?a1"
    by (simp add: chain_server_lookups chain_ancestors)
  then have a: "ancestor1 (snd (''u'', ?u)) chainStoreOnServer = Some ?a1" by simp
  have p: "Math_round (multiply 10000 (double (19 / 100))) > 0" and q: "Math_round (multiply 10000 (double (19 / 100))) = 1900"
    by (simp_all add: bonus_values)
  have l1: "processLevel1ReferralBonus (''u'', ?u) 10000 chainStoreOnServer =
              (Inl FirebaseNotInitialized, paidUnnotified 1 ''u'' ?a1 1900 chainStoreOnServer)"
    using processLevel1_server [OF chain_server_lookups(3) a p] q by simp
  note t = level_failure_ends_the_call [OF u r np, of 10000]
  from t l1 have "processDepositReferralBonus ''u'' 10000 chainStoreOnServer =
     (Inl FirebaseNotInitialized, paidUnnotified 1 ''u'' ?a1 1900 chainStoreOnServer)"
    by blast
  with u np chain_server_lookups(3) a0 p l1 show ?thesis by blast
qed

text \<open>
  C8 as stated fails. On the server the level-1 payout of a deposit of 10,000 throws
  when it creates the notification; the call ends with that error. The level-2 ancestor
  \<open>a2\<close> exists and its bonus is 200, but its document is as before and the log holds
  the transaction of \<open>a1\<close> only: level 2 was not attempted. Run on the store level 1
  left, the level-2 method would have recorded the transaction for \<open>a2\<close>.
\<close>

theorem level1_failure_blocks_level2_counterexample:
  "fst (processDepositReferralBonus ''u'' 10000 chainStoreOnServer) = Inl FirebaseNotInitialized \<and>
   getUserById ''a2'' chainStoreOnServer \<noteq> None \<and>
   Math_round (multiply 10000 (double (2 / 100))) = 200 \<and>
   getUserById ''a2'' (snd (processDepositReferralBonus ''u'' 10000 chainStoreOnServer)) =
     getUserById ''a2'' chainStoreOnServer \<and>
   map tx_userId (transactions (snd (processDepositReferralBonus ''u'' 10000 chainStoreOnServer))) = [''a1''] \<and>
   map tx_userId
     (transactions
        (snd (processLevel2ReferralBonus (''u'', mkUser ''u@example.org'' (Some 10000) (Some ''a1'')) 10000
                (snd (processLevel1ReferralBonus (''u'', mkUser ''u@example.org'' (Some 10000) (Some ''a1''))
                        10000 chainStoreOnServer))))) = [''a1'', ''a2'']"
proof -
  let ?u = "mkUser ''u@example.org'' (Some 10000) (Some ''a1'')"
  let ?a1 = "(''a1'', mkUser ''a1@example.org'' (Some 50) (Some ''a2''))"
  let ?w1 = "paidUnnotified 1 ''u'' ?a1 1900 chainStoreOnServer"
  have u: "getUserById ''u'' chainStoreOnServer = Some (''u'', ?u)"
    by (simp add: chain_server_lookups chain_lookups)
  have a: "ancestor1 (snd (''u'', ?u)) chainStoreOnServer = Some ?a1"
    by (simp add: chain_server_lookups chain_ancestors)
  note q = bonus_10000(1,2)
  have l1: "processLevel1ReferralBonus (''u'', ?u) 10000 chainStoreOnServer =
              (Inl FirebaseNotInitialized, ?w1)"
    using processLevel1_server [OF chain_server_lookups(3) a] q by simp
  have dep: "processDepositReferralBonus ''u'' 10000 chainStoreOnServer = (Inl FirebaseNotInitialized, ?w1)"
    using u l1 by (simp add: processDepositReferralBonus_def not_alreadyPaid_server chain_server_lookups mkUser_def)
  have g2: "getUserById ''a2'' ?w1 = getUserById ''a2'' chainStoreOnServer"
    by (simp add: paidUnnotified_def getUserById_def map_of_upsert)
  have t1: "map tx_userId (transactions ?w1) = [''a1'']"
    by (simp add: paidUnnotified_def chain_server_lookups bonusTransaction_def)
  have l2: "map tx_userId (transactions (snd (processLevel2ReferralBonus (''u'', ?u) 10000 ?w1))) = [''a1'', ''a2'']"
    by (simp add: processLevel2ReferralBonus_def bonus_values
          paidUnnotified_def chainStoreOnServer_def chainStore_def chainUsers_def mkUser_def
          getUserByRef_def getUserById_def truthy_def credited_def Let_def saveUser_def
          createTransaction_def createNotification_def bonusTransaction_def levelDescription_def)
  have e2: "getUserById ''a2'' chainStoreOnServer \<noteq> None"
    by (simp add: chain_server_lookups chain_lookups)
  show ?thesis
    unfolding dep l1 fst_conv snd_conv using g2 t1 l2 e2 q(2) by simp
qed

section \<open>Properties of the milestone rewards\<close>

text \<open>The entries the loop appends, given what \<^verbatim>\<open>allPreviousClaimed\<close> is on entry.\<close>

lemma milestoneLoop_entries:
  "snd (snd (milestoneLoop ms v ct (nt, apc, done))) =
     done @ map (\<lambda>i. \<lparr>ms_id = m_id (ms ! i), ms_target = target (ms ! i), ms_reward = reward (ms ! i),
                       ms_status =
                         (if target (ms ! i) \<in> ct then claimed
                          else if v \<ge> target (ms ! i) \<and> apc \<and> (\<forall>j<i. target (ms ! j) \<in> ct) then claimable
                          else locked)\<rparr>) [0..<length ms]"
proof (induction ms arbitrary: nt apc "done")
  case Nil
  then show ?case by simp
next
  case (Cons m ms)
  have shift: "[0..<length (m # ms)] = 0 # map Suc [0..<length ms]"
    by (simp add: upt_conv_Cons map_Suc_upt del: upt_Suc)
  have all: "(\<forall>j<Suc i. target ((m # ms) ! j) \<in> ct) \<longleftrightarrow>
             target m \<in> ct \<and> (\<forall>j<i. target (ms ! j) \<in> ct)" for i
    by (auto simp: less_Suc_eq_0_disj)
  show ?case
    unfolding shift
    by (simp add: Cons.IH Let_def all o_def del: upt_Suc)
qed

lemma sorted_targets_before:
  assumes "sorted_wrt (<) (map target ms)" and "i < length ms"
  shows "(\<forall>j<i. target (ms ! j) \<in> ct) \<longleftrightarrow>
         (\<forall>m' \<in> set ms. target m' < target (ms ! i) \<longrightarrow> target m' \<in> ct)"
proof
  assume l: "\<forall>j<i. target (ms ! j) \<in> ct"
  show "\<forall>m' \<in> set ms. target m' < target (ms ! i) \<longrightarrow> target m' \<in> ct"
  proof (intro ballI impI)
    fix m' assume "m' \<in> set ms" and lt: "target m' < target (ms ! i)"
    then obtain j where j: "j < length ms" "ms ! j = m'" by (auto simp: in_set_conv_nth)
    have "j < i"
    proof (rule ccontr)
      assume "\<not> j < i"
      then have "i \<le> j" by simp
      then consider "i = j" | "i < j" by linarith
      then show False
      proof cases
        case 1
        with j lt show False by simp
      next
        case 2
        with assms(1) j(1) have "map target ms ! i < map target ms ! j"
          by (simp add: sorted_wrt_iff_nth_less)
        with j assms(2) lt show False by simp
      qed
    qed
    with l j show "target m' \<in> ct" by auto
  qed
next
  assume r: "\<forall>m' \<in> set ms. target m' < target (ms ! i) \<longrightarrow> target m' \<in> ct"
  show "\<forall>j<i. target (ms ! j) \<in> ct"
  proof (intro allI impI)
    fix j assume ji: "j < i"
    with assms have "map target ms ! j < map target ms ! i"
      by (simp add: sorted_wrt_iff_nth_less)
    with ji assms(2) have "target (ms ! j) < target (ms ! i)" by simp
    moreover from ji assms(2) have "ms ! j \<in> set ms" by simp
    ultimately show "target (ms ! j) \<in> ct" using r by blast
  qed
qed

lemma config_sorted: "sorted_wrt (<) (map target getMilestoneConfig)"
  by (simp add: getMilestoneConfig_def)

lemma milestoneLoop_config:
  "snd (snd (milestoneLoop getMilestoneConfig v ct (None, True, []))) =
     map (\<lambda>m. \<lparr>ms_id = m_id m, ms_target = target m, ms_reward = reward m,
                ms_status = tierStatus v ct m\<rparr>) getMilestoneConfig"
proof -
  let ?ms = getMilestoneConfig
  have "snd (snd (milestoneLoop ?ms v ct (None, True, []))) =
          map (\<lambda>i. \<lparr>ms_id = m_id (?ms ! i), ms_target = target (?ms ! i), ms_reward = reward (?ms ! i),
                      ms_status = tierStatus v ct (?ms ! i)\<rparr>) [0..<length ?ms]"
    unfolding milestoneLoop_entries
    by (simp add: tierStatus_def sorted_targets_before [OF config_sorted] del: upt_Suc)
  also have "\<dots> = map (\<lambda>m. \<lparr>ms_id = m_id m, ms_target = target m, ms_reward = reward m,
                ms_status = tierStatus v ct m\<rparr>) (map (\<lambda>i. ?ms ! i) [0..<length ?ms])"
    by (simp add: o_def del: upt_Suc)
  also have "map (\<lambda>i. ?ms ! i) [0..<length ?ms] = ?ms"
    by (rule map_nth)
  finally show ?thesis .
qed

subsection \<open>C3\<close>

lemma find_tier:
  "find (\<lambda>e. ms_target e = t)
     (map (\<lambda>m. \<lparr>ms_id = m_id m, ms_target = target m, ms_reward = reward m, ms_status = f m\<rparr>) ms) =
   map_option (\<lambda>m. \<lparr>ms_id = m_id m, ms_target = target m, ms_reward = reward m, ms_status = f m\<rparr>)
     (find (\<lambda>m. target m = t) ms)"
  by (induction ms) simp_all

lemma find_config_5:
  "find (\<lambda>m. target m = 5) getMilestoneConfig = Some \<lparr>m_id = ''VIP1'', target = 5, reward = 1000\<rparr>"
  by (simp add: getMilestoneConfig_def)

lemma find_config_15:
  "find (\<lambda>m. target m = 15) getMilestoneConfig = Some \<lparr>m_id = ''VIP2'', target = 15, reward = 5000\<rparr>"
  by (simp add: getMilestoneConfig_def)

lemma config_member_5: "\<lparr>m_id = ''VIP1'', target = 5, reward = 1000\<rparr> \<in> set getMilestoneConfig"
  by (simp add: getMilestoneConfig_def)

lemma milestones_report:
  assumes "clientSide w"
  shows "r_milestones (getReferralMilestoneStatus userId w) =
           map (\<lambda>m. \<lparr>ms_id = m_id m, ms_target = target m, ms_reward = reward m,
                      ms_status = tierStatus (getValidReferralCount userId w)
                                    (loadClaimedTargets userId w) m\<rparr>) getMilestoneConfig"
    and "r_validReferrals (getReferralMilestoneStatus userId w) = getValidReferralCount userId w"
  using assms by (simp_all add: getReferralMilestoneStatus_def Let_def milestoneLoop_config)

lemma validLoop_count:
  "validLoop rs w c =
     c + int (length (filter (\<lambda>r. hasDeposited (snd r) = Some True \<and> getUserProducts (fst r) w \<noteq> []) rs))"
  by (induction rs arbitrary: c) (simp_all add: Let_def)

lemma loadClaimedTargets_records: "loadClaimedTargets userId w = {t. claimedRecord userId w t}"
  by (auto simp: loadClaimedTargets_def claimedRecord_def list_ex_iff)

lemma getValidReferralCount_valid:
  assumes "clientSide w"
  shows "getValidReferralCount userId w = validReferralCount userId w"
proof -
  have p: "getUserProducts k w \<noteq> [] \<longleftrightarrow> list_ex (\<lambda>p. pp_userId p = k) (purchased_products w)" for k
    using assms by (auto simp: getUserProducts_def filter_empty_conv list_ex_iff)
  have v: "validReferral userId w =
      (\<lambda>r. referredBy (snd r) = Some userId \<and> hasDeposited (snd r) = Some True \<and>
           list_ex (\<lambda>p. pp_userId p = fst r) (purchased_products w))"
    by (simp add: fun_eq_iff validReferral_def)
  have "validLoop (getDirectReferrals userId w) w 0 = validReferralCount userId w"
    using assms
    by (simp add: validLoop_count getDirectReferrals_def validReferralCount_def v p
          conj_commute conj_left_commute cong: conj_cong)
  then show ?thesis
    by (cases "getDirectReferrals userId w") (simp_all add: getValidReferralCount_def Let_def)
qed

text \<open>
  C3. On the client, for every user, \<^verbatim>\<open>getReferralMilestoneStatus\<close> reports the number
  of the user's valid referrals and the tiers of the configuration in order, each with
  the status \<open>tierStatus\<close> gives it from that number and the reward claims stored: for
  every tier reported, the status is claimed exactly when a claimed record of the user
  for the tier's target is in the collection; it is claimable exactly when there is no
  such record, the number of valid referrals has reached the target, and every tier
  with a strictly lower target has a claimed record; it is locked exactly when neither
  holds. In particular, with 40 valid referrals and no claimed record for targets 5
  and 15, the tier with target 15 is reported locked.
\<close>

theorem milestone_status_by_tier:
  assumes "clientSide w"
  shows "r_validReferrals (getReferralMilestoneStatus userId w) = validReferralCount userId w \<and>
         r_milestones (getReferralMilestoneStatus userId w) =
           map (\<lambda>m. \<lparr>ms_id = m_id m, ms_target = target m, ms_reward = reward m,
                      ms_status = tierStatus (validReferralCount userId w)
                                    {t. claimedRecord userId w t} m\<rparr>) getMilestoneConfig \<and>
         (\<forall>e \<in> set (r_milestones (getReferralMilestoneStatus userId w)).
            (ms_status e = claimed \<longleftrightarrow> claimedRecord userId w (ms_target e)) \<and>
            (ms_status e = claimable \<longleftrightarrow>
               \<not> claimedRecord userId w (ms_target e) \<and>
               validReferralCount userId w \<ge> ms_target e \<and>
               (\<forall>m' \<in> set getMilestoneConfig.
                  target m' < ms_target e \<longrightarrow> claimedRecord userId w (target m'))) \<and>
            (ms_status e = locked \<longleftrightarrow>
               \<not> claimedRecord userId w (ms_target e) \<and>
               \<not> (validReferralCount userId w \<ge> ms_target e \<and>
                  (\<forall>m' \<in> set getMilestoneConfig.
                     target m' < ms_target e \<longrightarrow> claimedRecord userId w (target m'))))) \<and>
         (validReferralCount userId w = 40 \<longrightarrow>
          \<not> claimedRecord userId w 5 \<longrightarrow> \<not> claimedRecord userId w 15 \<longrightarrow>
            find (\<lambda>e. ms_target e = 15) (r_milestones (getReferralMilestoneStatus userId w)) =
              Some \<lparr>ms_id = ''VIP2'', ms_target = 15, ms_reward = 5000, ms_status = locked\<rparr>)"
proof (intro conjI impI ballI)
  show "r_validReferrals (getReferralMilestoneStatus userId w) = validReferralCount userId w"
    using assms by (simp add: milestones_report(2) getValidReferralCount_valid)
  show m: "r_milestones (getReferralMilestoneStatus userId w) =
           map (\<lambda>m. \<lparr>ms_id = m_id m, ms_target = target m, ms_reward = reward m,
                      ms_status = tierStatus (validReferralCount userId w)
                                    {t. claimedRecord userId w t} m\<rparr>) getMilestoneConfig"
    using assms
    by (simp add: milestones_report(1) getValidReferralCount_valid loadClaimedTargets_records)
  {
    fix e
    assume "e \<in> set (r_milestones (getReferralMilestoneStatus userId w))"
    then obtain m0 where e: "ms_target e = target m0"
        "ms_status e = tierStatus (validReferralCount userId w) {t. claimedRecord userId w t} m0"
      unfolding m by auto
    show "ms_status e = claimed \<longleftrightarrow> claimedRecord userId w (ms_target e)"
      unfolding e by (simp add: tierStatus_def)
    show "ms_status e = claimable \<longleftrightarrow>
               \<not> claimedRecord userId w (ms_target e) \<and>
               validReferralCount userId w \<ge> ms_target e \<and>
               (\<forall>m' \<in> set getMilestoneConfig.
                  target m' < ms_target e \<longrightarrow> claimedRecord userId w (target m'))"
      unfolding e by (simp add: tierStatus_def)
    show "ms_status e = locked \<longleftrightarrow>
               \<not> claimedRecord userId w (ms_target e) \<and>
               \<not> (validReferralCount userId w \<ge> ms_target e \<and>
                  (\<forall>m' \<in> set getMilestoneConfig.
                     target m' < ms_target e \<longrightarrow> claimedRecord userId w (target m')))"
      unfolding e by (simp add: tierStatus_def)
  }
  assume v: "validReferralCount userId w = 40"
    and n5: "\<not> claimedRecord userId w 5" and n15: "\<not> claimedRecord userId w 15"
  have "tierStatus 40 {t. claimedRecord userId w t} \<lparr>m_id = ''VIP2'', target = 15, reward = 5000\<rparr> = locked"
    using n5 n15 config_member_5
    by (auto simp: tierStatus_def intro!: bexI [of _ "\<lparr>m_id = ''VIP1'', target = 5, reward = 1000\<rparr>"])
  then show "find (\<lambda>e. ms_target e = 15) (r_milestones (getReferralMilestoneStatus userId w)) =
              Some \<lparr>ms_id = ''VIP2'', ms_target = 15, ms_reward = 5000, ms_status = locked\<rparr>"
    unfolding m find_tier find_config_15 v by simp
qed

lemma promoter_referrals:
  "getDirectReferrals ''p'' promoterStore =
     map (\<lambda>i. (referralId i, mkUser ''r@example.org'' None (Some ''p''))) [0..<40]"
proof -
  have "filter (\<lambda>u. referredBy (snd u) = Some ''p'')
          (map (\<lambda>i. (referralId i, mkUser ''r@example.org'' None (Some ''p''))) [0..<40]) =
        map (\<lambda>i. (referralId i, mkUser ''r@example.org'' None (Some ''p''))) [0..<40]"
    by (rule filter_True) (auto simp: mkUser_def)
  then show ?thesis
    by (simp add: getDirectReferrals_def promoterStore_def mkUser_def del: upt_Suc)
qed

lemma promoter_products:
  assumes "i < 40"
  shows "getUserProducts (referralId i) promoterStore \<noteq> []"
proof -
  from assms have "referralProduct i \<in> set (purchased_products promoterStore)"
    by (simp add: promoterStore_def del: upt_Suc)
  moreover have "pp_userId (referralProduct i) = referralId i"
    by (simp add: referralProduct_def)
  ultimately show ?thesis
    by (auto simp: getUserProducts_def promoterStore_def filter_empty_conv simp del: upt_Suc)
qed

lemma promoter_count: "getValidReferralCount ''p'' promoterStore = 40"
proof -
  let ?rs = "map (\<lambda>i. (referralId i, mkUser ''r@example.org'' None (Some ''p''))) [0..<40]"
  have "filter (\<lambda>r. hasDeposited (snd r) = Some True \<and> getUserProducts (fst r) promoterStore \<noteq> []) ?rs = ?rs"
    by (rule filter_True) (auto simp: mkUser_def promoter_products simp del: upt_Suc)
  then have "validLoop ?rs promoterStore 0 = 40"
    by (simp add: validLoop_count del: upt_Suc)
  then show ?thesis
    by (simp add: getValidReferralCount_def promoter_referrals Let_def del: upt_Suc)
qed

lemma promoter_facts:
  "clientSide promoterStore" "loadClaimedTargets ''p'' promoterStore = {}"
  "referral_rewards promoterStore = []" "clock promoterStore = 1000"
  "getUserById ''p'' promoterStore = Some (''p'', mkUser ''p@example.org'' (Some 250) None)"
  by (simp_all add: promoterStore_def loadClaimedTargets_def getUserById_def)

lemma find_config_30:
  "find (\<lambda>m. target m = 30) getMilestoneConfig = Some \<lparr>m_id = ''VIP3'', target = 30, reward = 9000\<rparr>"
  by (simp add: getMilestoneConfig_def)

lemma promoter_claimed_facts:
  "clientSide promoterClaimedStore"
  "validReferralCount ''p'' promoterClaimedStore = validReferralCount ''p'' promoterStore"
  "{t. claimedRecord ''p'' promoterClaimedStore t} = {5}"
  "{t. claimedRecord ''p'' promoterStore t} = {}"
proof -
  show "clientSide promoterClaimedStore"
    by (simp add: promoterClaimedStore_def promoter_facts)
  have "validReferral ''p'' promoterClaimedStore = validReferral ''p'' promoterStore"
    by (simp add: fun_eq_iff validReferral_def promoterClaimedStore_def)
  then show "validReferralCount ''p'' promoterClaimedStore = validReferralCount ''p'' promoterStore"
    by (simp add: validReferralCount_def promoterClaimedStore_def)
  show "{t. claimedRecord ''p'' promoterClaimedStore t} = {5}"
    by (auto simp: claimedRecord_def promoterClaimedStore_def)
  show "{t. claimedRecord ''p'' promoterStore t} = {}"
    by (simp add: claimedRecord_def promoter_facts)
qed

lemma promoter_claimed_records:
  "claimedRecord ''p'' promoterClaimedStore 5"
  "\<not> claimedRecord ''p'' promoterStore 5" "\<not> claimedRecord ''p'' promoterStore 15"
  using promoter_claimed_facts(3,4) by blast+

text \<open>
  The promoter with forty valid referrals. With nothing claimed, the tier with target 5
  is claimable and the tier with target 15 is locked. With a claimed record for target
  5 (and a pending one for 15), the tier with target 5 is claimed, the tier with target
  15 claimable, and the tier with target 30 locked.
\<close>

theorem milestone_status_by_tier_witness:
  "clientSide promoterStore \<and>
   validReferralCount ''p'' promoterStore = 40 \<and>
   \<not> claimedRecord ''p'' promoterStore 5 \<and>
   \<not> claimedRecord ''p'' promoterStore 15 \<and>
   find (\<lambda>e. ms_target e = 15) (r_milestones (getReferralMilestoneStatus ''p'' promoterStore)) =
     Some \<lparr>ms_id = ''VIP2'', ms_target = 15, ms_reward = 5000, ms_status = locked\<rparr> \<and>
   find (\<lambda>e. ms_target e = 5) (r_milestones (getReferralMilestoneStatus ''p'' promoterStore)) =
     Some \<lparr>ms_id = ''VIP1'', ms_target = 5, ms_reward = 1000, ms_status = claimable\<rparr> \<and>
   clientSide promoterClaimedStore \<and>
   claimedRecord ''p'' promoterClaimedStore 5 \<and>
   r_validReferrals (getReferralMilestoneStatus ''p'' promoterClaimedStore) = 40 \<and>
   find (\<lambda>e. ms_target e = 5) (r_milestones (getReferralMilestoneStatus ''p'' promoterClaimedStore)) =
     Some \<lparr>ms_id = ''VIP1'', ms_target = 5, ms_reward = 1000, ms_status = claimed\<rparr> \<and>
   find (\<lambda>e. ms_target e = 15) (r_milestones (getReferralMilestoneStatus ''p'' promoterClaimedStore)) =
     Some \<lparr>ms_id = ''VIP2'', ms_target = 15, ms_reward = 5000, ms_status = claimable\<rparr> \<and>
   find (\<lambda>e. ms_target e = 30) (r_milestones (getReferralMilestoneStatus ''p'' promoterClaimedStore)) =
     Some \<lparr>ms_id = ''VIP3'', ms_target = 30, ms_reward = 9000, ms_status = locked\<rparr>"
proof -
  note t = milestone_status_by_tier [OF promoter_facts(1), of "''p''"]
  note t' = milestone_status_by_tier [OF promoter_claimed_facts(1), of "''p''"]
  have v: "validReferralCount ''p'' promoterStore = 40"
    using getValidReferralCount_valid [OF promoter_facts(1), of "''p''"] promoter_count by simp
  then have v': "validReferralCount ''p'' promoterClaimedStore = 40"
    by (simp add: promoter_claimed_facts)
  note n = promoter_claimed_records(2,3)
  from t v n
  have l: "find (\<lambda>e. ms_target e = 15) (r_milestones (getReferralMilestoneStatus ''p'' promoterStore)) =
     Some \<lparr>ms_id = ''VIP2'', ms_target = 15, ms_reward = 5000, ms_status = locked\<rparr>"
    by blast
  from t have m: "r_milestones (getReferralMilestoneStatus ''p'' promoterStore) =
           map (\<lambda>m. \<lparr>ms_id = m_id m, ms_target = target m, ms_reward = reward m,
                      ms_status = tierStatus (validReferralCount ''p'' promoterStore)
                                    {t. claimedRecord ''p'' promoterStore t} m\<rparr>) getMilestoneConfig"
    by blast
  have "tierStatus 40 {} \<lparr>m_id = ''VIP1'', target = 5, reward = 1000\<rparr> = claimable"
    by (simp add: tierStatus_def getMilestoneConfig_def)
  then have c: "find (\<lambda>e. ms_target e = 5) (r_milestones (getReferralMilestoneStatus ''p'' promoterStore)) =
     Some \<lparr>ms_id = ''VIP1'', ms_target = 5, ms_reward = 1000, ms_status = claimable\<rparr>"
    unfolding m find_tier find_config_5 v by (simp add: promoter_claimed_facts)
  from t' v' have rv: "r_validReferrals (getReferralMilestoneStatus ''p'' promoterClaimedStore) = 40"
    by simp
  from t' have m': "r_milestones (getReferralMilestoneStatus ''p'' promoterClaimedStore) =
           map (\<lambda>m. \<lparr>ms_id = m_id m, ms_target = target m, ms_reward = reward m,
                      ms_status = tierStatus (validReferralCount ''p'' promoterClaimedStore)
                                    {t. claimedRecord ''p'' promoterClaimedStore t} m\<rparr>) getMilestoneConfig"
    by blast
  have s: "tierStatus 40 {5} \<lparr>m_id = ''VIP1'', target = 5, reward = 1000\<rparr> = claimed"
      "tierStatus 40 {5} \<lparr>m_id = ''VIP2'', target = 15, reward = 5000\<rparr> = claimable"
      "tierStatus 40 {5} \<lparr>m_id = ''VIP3'', target = 30, reward = 9000\<rparr> = locked"
    by (simp_all add: tierStatus_def getMilestoneConfig_def)
  have c5: "find (\<lambda>e. ms_target e = 5) (r_milestones (getReferralMilestoneStatus ''p'' promoterClaimedStore)) =
     Some \<lparr>ms_id = ''VIP1'', ms_target = 5, ms_reward = 1000, ms_status = claimed\<rparr>"
    unfolding m' find_tier find_config_5 v' by (simp add: promoter_claimed_facts s)
  have c15: "find (\<lambda>e. ms_target e = 15) (r_milestones (getReferralMilestoneStatus ''p'' promoterClaimedStore)) =
     Some \<lparr>ms_id = ''VIP2'', ms_target = 15, ms_reward = 5000, ms_status = claimable\<rparr>"
    unfolding m' find_tier find_config_15 v' by (simp add: promoter_claimed_facts s)
  have c30: "find (\<lambda>e. ms_target e = 30) (r_milestones (getReferralMilestoneStatus ''p'' promoterClaimedStore)) =
     Some \<lparr>ms_id = ''VIP3'', ms_target = 30, ms_reward = 9000, ms_status = locked\<rparr>"
    unfolding m' find_tier find_config_30 v' by (simp add: promoter_claimed_facts s)
  note cr = promoter_claimed_records(1)
  from promoter_facts(1) promoter_claimed_facts(1) v n l c cr rv c5 c15 c30 show ?thesis by blast
qed
subsection \<open>C4\<close>

lemma find_config_target:
  "find (\<lambda>m. target m = t) getMilestoneConfig = Some m \<Longrightarrow> target m = t \<and> m \<in> set getMilestoneConfig"
  by (auto simp: find_Some_iff in_set_conv_nth)

lemma claimed_records_iff:
  "filter (\<lambda>r. rc_userId r = userId \<and> rc_milestoneTarget r = t \<and> rc_status r = RewardClaimed)
     (referral_rewards w) \<noteq> [] \<longleftrightarrow> t \<in> loadClaimedTargets userId w"
  by (auto simp: loadClaimedTargets_def filter_empty_conv)

lemma no_previous_unclaimed:
  assumes "tierStatus v ct m = claimable"
  shows "\<not> list_ex (\<lambda>e. ms_target e < target m \<and> ms_status e \<noteq> claimed)
            (map (\<lambda>m. \<lparr>ms_id = m_id m, ms_target = target m, ms_reward = reward m,
                       ms_status = tierStatus v ct m\<rparr>) getMilestoneConfig)"
proof -
  from assms have lower: "\<forall>m' \<in> set getMilestoneConfig. target m' < target m \<longrightarrow> target m' \<in> ct"
    by (auto simp: tierStatus_def split: if_splits)
  then have "\<forall>m' \<in> set getMilestoneConfig. target m' < target m \<longrightarrow> tierStatus v ct m' = claimed"
    by (simp add: tierStatus_def)
  then show ?thesis by (auto simp: list_ex_iff)
qed

text \<open>
  What \<^verbatim>\<open>claimReferralMilestone\<close> returns for a target of the configuration, on the
  client: once the reported status is claimable, the three tests that follow cannot fail.
\<close>

lemma claim_result:
  assumes c: "clientSide w" and m: "find (\<lambda>m. target m = t) getMilestoneConfig = Some m"
  shows "claimReferralMilestone userId t w =
           (if tierStatus (getValidReferralCount userId w) (loadClaimedTargets userId w) m \<noteq> claimable
            then (\<lparr>success = False, message = MilestoneNotClaimableYet\<rparr>, w)
            else
              (case getUserById userId w of
                 None \<Rightarrow> (\<lparr>success = False, message = UserNotFound\<rparr>, w)
               | Some user \<Rightarrow>
                   (\<lparr>success = True, message = SuccessfullyClaimed (reward m)\<rparr>,
                    createTransaction
                      \<lparr>tx_userId = userId, tx_userEmail = email (snd user),
                       tx_type = Referral_Bonus, tx_amount = reward m,
                       tx_status = TxCompleted, tx_date = clock w,
                       tx_description = ''Referral milestone reward'',
                       tx_referralUserId = None\<rparr>
                      ((saveUser (fst user, (snd user)\<lparr>balance := Some (orZero (balance (snd user)) + reward m)\<rparr>) w)
                         \<lparr>referral_rewards :=
                            referral_rewards w @
                              [\<lparr>rc_userId = userId, rc_milestoneTarget = t, rc_amount = reward m,
                                rc_status = RewardClaimed, rc_claimedAt = clock w\<rparr>]\<rparr>))))"
proof -
  let ?v = "getValidReferralCount userId w"
  let ?ct = "loadClaimedTargets userId w"
  let ?entry = "\<lambda>m. \<lparr>ms_id = m_id m, ms_target = target m, ms_reward = reward m,
                       ms_status = tierStatus ?v ?ct m\<rparr>"
  from m have tm: "target m = t" by (rule find_config_target [THEN conjunct1])
  have f: "find (\<lambda>e. ms_target e = t) (r_milestones (getReferralMilestoneStatus userId w)) = Some (?entry m)"
    by (simp add: milestones_report(1) [OF c] find_tier m)
  show ?thesis
  proof (cases "tierStatus ?v ?ct m = claimable")
    case False
    with c m f show ?thesis
      by (simp add: claimReferralMilestone_def Let_def)
  next
    case True
    then have v: "\<not> ?v < t" and nc: "t \<notin> ?ct"
      using tm by (auto simp: tierStatus_def split: if_splits)
    have np: "\<not> list_ex (\<lambda>e. ms_target e < t \<and> ms_status e \<noteq> claimed)
                 (r_milestones (getReferralMilestoneStatus userId w))"
      using no_previous_unclaimed [OF True] tm by (simp add: milestones_report(1) [OF c])
    have ne: "filter (\<lambda>r. rc_userId r = userId \<and> rc_milestoneTarget r = t \<and> rc_status r = RewardClaimed)
                (referral_rewards w) = []"
      using nc claimed_records_iff [of userId t w] by simp
    have v': "\<not> r_validReferrals (getReferralMilestoneStatus userId w) < t"
      using v by (simp add: milestones_report(2) [OF c])
    show ?thesis
      using c m f True v' np ne
      by (simp add: claimReferralMilestone_def Let_def saveUser_def split: option.splits)
  qed
qed

lemma claim_never_reaches_later_messages:
  "message (fst (claimReferralMilestone userId t w)) \<noteq> MilestoneAlreadyClaimed \<and>
   message (fst (claimReferralMilestone userId t w)) \<noteq> ClaimPreviousMilestonesFirst \<and>
   message (fst (claimReferralMilestone userId t w)) \<noteq> ReferralTargetNotReached"
proof (cases "clientSide w")
  case False
  then show ?thesis by (simp add: claimReferralMilestone_def)
next
  case True
  show ?thesis
  proof (cases "find (\<lambda>m. target m = t) getMilestoneConfig")
    case None
    with True show ?thesis by (simp add: claimReferralMilestone_def)
  next
    case (Some m)
    show ?thesis
      unfolding claim_result [OF True Some] by (simp split: option.splits)
  qed
qed

lemma claim_twice:
  assumes "success (fst (claimReferralMilestone userId t w))"
  shows "claimReferralMilestone userId t (snd (claimReferralMilestone userId t w)) =
           (\<lparr>success = False, message = MilestoneNotClaimableYet\<rparr>,
            snd (claimReferralMilestone userId t w))"
proof -
  from assms have c: "clientSide w"
    by (auto simp: claimReferralMilestone_def split: if_splits)
  from assms c obtain m where m: "find (\<lambda>m. target m = t) getMilestoneConfig = Some m"
    by (cases "find (\<lambda>m. target m = t) getMilestoneConfig") (auto simp: claimReferralMilestone_def)
  let ?w' = "snd (claimReferralMilestone userId t w)"
  from assms obtain user where
    w': "?w' = createTransaction
                      \<lparr>tx_userId = userId, tx_userEmail = email (snd user),
                       tx_type = Referral_Bonus, tx_amount = reward m,
                       tx_status = TxCompleted, tx_date = clock w,
                       tx_description = ''Referral milestone reward'',
                       tx_referralUserId = None\<rparr>
                      ((saveUser (fst user, (snd user)\<lparr>balance := Some (orZero (balance (snd user)) + reward m)\<rparr>) w)
                         \<lparr>referral_rewards :=
                            referral_rewards w @
                              [\<lparr>rc_userId = userId, rc_milestoneTarget = t, rc_amount = reward m,
                                rc_status = RewardClaimed, rc_claimedAt = clock w\<rparr>]\<rparr>)"
    unfolding claim_result [OF c m] by (auto split: if_splits option.splits)
  have c': "clientSide ?w'"
    unfolding w' using c by (simp add: createTransaction_def saveUser_def)
  have "t \<in> loadClaimedTargets userId ?w'"
    unfolding w' by (simp add: loadClaimedTargets_def createTransaction_def saveUser_def)
  moreover from m have "target m = t" by (rule find_config_target [THEN conjunct1])
  ultimately have "tierStatus (getValidReferralCount userId ?w') (loadClaimedTargets userId ?w') m = claimed"
    by (simp add: tierStatus_def)
  then show ?thesis
    unfolding claim_result [OF c' m] by simp
qed

lemma getUserById_createTransaction: "getUserById k (createTransaction t w) = getUserById k w"
  by (simp add: getUserById_def createTransaction_def)

lemma getUserById_rewards_update: "getUserById k (w\<lparr>referral_rewards := x\<rparr>) = getUserById k w"
  by (simp add: getUserById_def)

text \<open>
  C4, on the code. The promoter has forty valid referrals and has claimed nothing. The
  claim of target 5 succeeds and credits 1,000 once. The second claim of target 5
  credits nothing and changes nothing, but its message is the one of
  \<^verbatim>\<open>'Milestone is not claimable yet'\<close>, not \<^verbatim>\<open>'Milestone already claimed'\<close>: the
  reported status is then claimed, and the test on the status returns before the test
  on the claimed record is reached. The claim of target 15 before target 5 returns the
  same message, not \<^verbatim>\<open>'Please claim previous milestones first'\<close>.
\<close>

theorem repeated_and_early_claim_share_one_message:
  "getValidReferralCount ''p'' promoterStore = 40 \<and>
   fst (claimReferralMilestone ''p'' 5 promoterStore) =
     \<lparr>success = True, message = SuccessfullyClaimed 1000\<rparr> \<and>
   map_option (balance \<circ> snd) (getUserById ''p'' promoterStore) = Some (Some 250) \<and>
   map_option (balance \<circ> snd) (getUserById ''p'' (snd (claimReferralMilestone ''p'' 5 promoterStore)))
     = Some (Some 1250) \<and>
   claimReferralMilestone ''p'' 5 (snd (claimReferralMilestone ''p'' 5 promoterStore)) =
     (\<lparr>success = False, message = MilestoneNotClaimableYet\<rparr>,
      snd (claimReferralMilestone ''p'' 5 promoterStore)) \<and>
   claimReferralMilestone ''p'' 15 promoterStore =
     (\<lparr>success = False, message = MilestoneNotClaimableYet\<rparr>, promoterStore)"
proof -
  have s5: "tierStatus 40 {} \<lparr>m_id = ''VIP1'', target = 5, reward = 1000\<rparr> = claimable"
    by (simp add: tierStatus_def getMilestoneConfig_def)
  have s15: "tierStatus 40 {} \<lparr>m_id = ''VIP2'', target = 15, reward = 5000\<rparr> = locked"
    using config_member_5
    by (auto simp: tierStatus_def intro!: bexI [of _ "\<lparr>m_id = ''VIP1'', target = 5, reward = 1000\<rparr>"])
  have c5: "fst (claimReferralMilestone ''p'' 5 promoterStore) =
              \<lparr>success = True, message = SuccessfullyClaimed 1000\<rparr>"
    and b5: "map_option (balance \<circ> snd)
               (getUserById ''p'' (snd (claimReferralMilestone ''p'' 5 promoterStore))) = Some (Some 1250)"
    unfolding claim_result [OF promoter_facts(1) find_config_5]
    by (simp_all add: promoter_count promoter_facts s5 getUserById_saveUser
          getUserById_createTransaction getUserById_rewards_update mkUser_def orZero_def)
  have b0: "map_option (balance \<circ> snd) (getUserById ''p'' promoterStore) = Some (Some 250)"
    by (simp add: promoter_facts mkUser_def)
  from c5 have "success (fst (claimReferralMilestone ''p'' 5 promoterStore))" by simp
  then have again: "claimReferralMilestone ''p'' 5 (snd (claimReferralMilestone ''p'' 5 promoterStore)) =
     (\<lparr>success = False, message = MilestoneNotClaimableYet\<rparr>,
      snd (claimReferralMilestone ''p'' 5 promoterStore))"
    by (rule claim_twice)
  have c15: "claimReferralMilestone ''p'' 15 promoterStore =
     (\<lparr>success = False, message = MilestoneNotClaimableYet\<rparr>, promoterStore)"
    unfolding claim_result [OF promoter_facts(1) find_config_15]
    by (simp add: promoter_count promoter_facts s15)
  from promoter_count c5 b0 b5 again c15 show ?thesis by blast
qed

section \<open>Properties of the payout sweep\<close>

lemma addToUserBalance_users:
  assumes "clientSide w"
  shows "map_of (users (addToUserBalance userId amount w)) k =
           map_option (\<lambda>u. if k = userId then u\<lparr>balance := Some (orZero (balance u) + amount)\<rparr> else u)
             (map_of (users w) k)"
  using assms
  by (cases "map_of (users w) userId"; cases "map_of (users w) k")
     (auto simp: addToUserBalance_def getUserById_def saveUser_def Let_def map_of_upsert)

lemma addToUserBalance_frame:
  "clientSide (addToUserBalance userId amount w) = clientSide w"
  "clock (addToUserBalance userId amount w) = clock w"
  "transactions (addToUserBalance userId amount w) = transactions w"
  "purchased_products (addToUserBalance userId amount w) = purchased_products w"
  "notifications (addToUserBalance userId amount w) = notifications w"
  "referral_rewards (addToUserBalance userId amount w) = referral_rewards w"
  by (simp_all add: addToUserBalance_def saveUser_def Let_def split: option.splits)

lemma creditAll_simps:
  "creditAll [] k = (\<lambda>u. u)"
  "creditAll [t] k = (\<lambda>u. if k = tx_userId t then u\<lparr>balance := Some (orZero (balance u) + tx_amount t)\<rparr> else u)"
  "creditAll (xs @ ys) k = (\<lambda>u. creditAll ys k (creditAll xs k u))"
  by (auto simp: creditAll_def creditOne_def fun_eq_iff)

lemma completePlan_client:
  assumes "clientSide w" and "pp_status product \<noteq> Completed" and "startDate product \<le> clock w"
    and "endDate product \<le> clock w"
  shows "fst (completePlan product w) = Inr () \<and> sweepResult [product] w (snd (completePlan product w))"
proof -
  have p: "payoutTransactions (clock w) product = [completionTransaction product (clock w)]"
    using assms by (simp add: payoutTransactions_def)
  have s: "sweptBy (clock w) product =
             (\<lambda>q. if pp_id q = pp_id product then q\<lparr>pp_status := Completed\<rparr> else q)"
    using assms by (auto simp: sweptBy_def fun_eq_iff)
  show ?thesis
    using assms(1)
    by (auto simp: completePlan_def Let_def updateProductStatus_def createTransaction_def
          addToUserBalance_frame sweepResult_def p s completionTransaction_def creditAll_simps
          addToUserBalance_users option.map_comp o_def cong: if_cong)
qed

lemma processDailyPayout_client:
  assumes "clientSide w" and "pp_status product \<noteq> Completed" and "startDate product \<le> clock w"
    and "clock w < endDate product"
  shows "fst (processDailyPayout product w) = Inr () \<and>
         sweepResult [product] w (snd (processDailyPayout product w))"
proof (cases "daysSinceLastPayout (clock w) product \<ge> 1")
  case False
  with assms have p: "payoutTransactions (clock w) product = []"
    by (simp add: payoutTransactions_def)
  from False assms have s: "sweptBy (clock w) product = (\<lambda>q. q)"
    by (auto simp: sweptBy_def fun_eq_iff)
  from False assms(1) show ?thesis
    by (simp add: processDailyPayout_def Let_def sweepResult_def p s creditAll_simps option.map_ident)
next
  case True
  from True assms have s: "sweptBy (clock w) product =
             (\<lambda>q. if pp_id q = pp_id product then q\<lparr>lastPayoutDate := Some (clock w)\<rparr> else q)"
    by (auto simp: sweptBy_def fun_eq_iff)
  show ?thesis
  proof (cases "pp_planType product = Special")
    case False
    with True assms have p: "payoutTransactions (clock w) product = []"
      by (simp add: payoutTransactions_def)
    from False True assms(1) show ?thesis
      by (simp add: processDailyPayout_def Let_def sweepResult_def p s creditAll_simps
            updateProductPayoutDate_def option.map_ident)
  next
    case Special: True
    with True assms have p: "payoutTransactions (clock w) product = [dailyTransaction product (clock w)]"
      by (simp add: payoutTransactions_def)
    from Special True assms(1) show ?thesis
      by (auto simp: processDailyPayout_def Let_def sweepResult_def p s creditAll_simps
            updateProductPayoutDate_def createTransaction_def addToUserBalance_frame
            dailyTransaction_def addToUserBalance_users cong: if_cong)
  qed
qed

lemma sweepResult_skip:
  assumes "pp_status product = Completed \<or> clock w < startDate product"
  shows "sweepResult [product] w w"
proof -
  from assms have p: "payoutTransactions (clock w) product = []"
    by (auto simp: payoutTransactions_def)
  from assms have s: "sweptBy (clock w) product = (\<lambda>q. q)"
    by (auto simp: sweptBy_def fun_eq_iff)
  show ?thesis
    by (simp add: sweepResult_def p s creditAll_simps option.map_ident)
qed

lemma sweepResult_compose:
  assumes 1: "sweepResult [product] w w1" and 2: "sweepResult ps w1 w2"
  shows "sweepResult (product # ps) w w2"
proof -
  from 1 have c: "clock w1 = clock w" by (simp add: sweepResult_def)
  show ?thesis
    using 1 2 unfolding sweepResult_def c
    by (simp add: creditAll_simps option.map_comp o_def)
qed

lemma payoutLoop_client:
  assumes "clientSide w"
  shows "fst (payoutLoop ps w) = Inr () \<and> sweepResult ps w (snd (payoutLoop ps w))"
  using assms
proof (induction ps arbitrary: w)
  case Nil
  then show ?case by (simp add: sweepResult_def creditAll_simps option.map_ident)
next
  case (Cons product ps)
  show ?case
  proof (cases "pp_status product = Completed \<or> clock w < startDate product")
    case True
    then have e: "payoutLoop (product # ps) w = payoutLoop ps w" by (auto simp: Let_def)
    from Cons have "fst (payoutLoop ps w) = Inr ()" and "sweepResult ps w (snd (payoutLoop ps w))"
      by blast+
    with sweepResult_skip [OF True] show ?thesis
      unfolding e by (blast intro: sweepResult_compose)
  next
    case False
    let ?r = "if clock w \<ge> endDate product then completePlan product w
              else processDailyPayout product w"
    from False Cons.prems have r: "fst ?r = Inr () \<and> sweepResult [product] w (snd ?r)"
      using completePlan_client [of w product] processDailyPayout_client [of w product]
      by (cases "clock w \<ge> endDate product") simp_all
    then have c1: "clientSide (snd ?r)" using Cons.prems by (simp add: sweepResult_def)
    from r have e: "payoutLoop (product # ps) w = payoutLoop ps (snd ?r)"
      using False by (cases ?r) (auto simp: Let_def)
    from Cons.IH [OF c1] have "fst (payoutLoop ps (snd ?r)) = Inr ()"
      and "sweepResult ps (snd ?r) (snd (payoutLoop ps (snd ?r)))"
      by blast+
    with r show ?thesis
      unfolding e by (blast intro: sweepResult_compose)
  qed
qed

lemma processDailyPayouts_client:
  assumes "clientSide w"
  shows "sweepResult (getAllActiveProducts w) w (processDailyPayouts w)"
  using assms payoutLoop_client [OF assms, of "getAllActiveProducts w"]
  by (simp add: processDailyPayouts_def)

lemma creditAll_balance:
  "orZero (balance (creditAll txs k u)) =
     orZero (balance u) + sum_list (map tx_amount (filter (\<lambda>t. tx_userId t = k) txs))"
  unfolding creditAll_def
  by (induction txs arbitrary: u) (simp_all add: creditOne_def orZero_def)

lemma pp_id_sweptBy [simp]: "pp_id (sweptBy now product q) = pp_id q"
  by (simp add: sweptBy_def)

lemma sweptBy_other: "pp_id p' \<noteq> pp_id q \<Longrightarrow> sweptBy now p' q = q"
  by (simp add: sweptBy_def)

lemma foldl_sweptBy_other:
  "\<forall>p' \<in> set ps. pp_id p' \<noteq> pp_id q \<Longrightarrow> foldl (\<lambda>q p'. sweptBy now p' q) q ps = q"
  by (induction ps arbitrary: q) (simp_all add: sweptBy_other)

lemma foldl_sweptBy_unique:
  assumes "distinct (map pp_id ps)" and "product \<in> set ps" and "pp_id q = pp_id product"
  shows "foldl (\<lambda>q p'. sweptBy now p' q) q ps = sweptBy now product q"
  using assms
proof (induction ps arbitrary: q)
  case Nil
  then show ?case by simp
next
  case (Cons a ps)
  show ?case
  proof (cases "a = product")
    case True
    with Cons.prems have "\<forall>p' \<in> set ps. pp_id p' \<noteq> pp_id (sweptBy now product q)"
      by (auto simp: image_iff)
    with True show ?thesis by (simp add: foldl_sweptBy_other)
  next
    case False
    with Cons.prems have in_ps: "product \<in> set ps" and ne: "pp_id a \<noteq> pp_id product"
      by (auto simp: image_iff)
    from ne Cons.prems(3) have "sweptBy now a q = q" by (simp add: sweptBy_other)
    with Cons.IH [OF _ in_ps Cons.prems(3)] Cons.prems(1) show ?thesis by simp
  qed
qed

lemma find_by_id:
  "distinct (map pp_id ps) \<Longrightarrow> product \<in> set ps \<Longrightarrow> find (\<lambda>q. pp_id q = pp_id product) ps = Some product"
  by (induction ps) (auto simp: image_iff)

lemma find_map_same_id:
  "(\<And>q. pp_id (f q) = pp_id q) \<Longrightarrow>
   find (\<lambda>q. pp_id q = i) (map f ps) = map_option f (find (\<lambda>q. pp_id q = i) ps)"
  by (induction ps) simp_all

lemma active_products:
  assumes "product \<in> set (getAllActiveProducts w)"
  shows "clientSide w" and "product \<in> set (purchased_products w)" and "pp_status product = Active"
  using assms by (auto simp: getAllActiveProducts_def split: if_splits)

text \<open>The stored document of an active product after the sweep.\<close>

lemma stored_after_sweep:
  assumes p: "product \<in> set (getAllActiveProducts w)"
    and d: "distinct (map pp_id (purchased_products w))"
  shows "find (\<lambda>q. pp_id q = pp_id product) (purchased_products (processDailyPayouts w)) =
           Some (sweptBy (clock w) product product)"
proof -
  note a = active_products [OF p]
  have da: "distinct (map pp_id (getAllActiveProducts w))"
    using d a(1) by (simp add: getAllActiveProducts_def distinct_map_filter)
  have r: "purchased_products (processDailyPayouts w) =
             map (\<lambda>q. foldl (\<lambda>q p'. sweptBy (clock w) p' q) q (getAllActiveProducts w))
               (purchased_products w)"
    using processDailyPayouts_client [OF a(1)] by (simp add: sweepResult_def)
  have i: "pp_id (foldl (\<lambda>q p'. sweptBy (clock w) p' q) q ps) = pp_id q" for q ps
    by (induction ps arbitrary: q) simp_all
  show ?thesis
    unfolding r
    by (simp add: find_map_same_id [where f = "\<lambda>q. foldl (\<lambda>q p'. sweptBy (clock w) p' q) q (getAllActiveProducts w)", OF i]
          find_by_id [OF d a(2)] foldl_sweptBy_unique [OF da p refl])
qed

subsection \<open>C5\<close>

text \<open>
  C5. On the client, for every Active product whose start and end dates have been
  reached, with product documents under distinct ids: after
  \<^verbatim>\<open>processDailyPayouts\<close> the product's document is the same but Completed; the sweep
  records for it exactly one transaction, the completion transaction, whose amount is
  \<open>totalEarning\<close> for Basic and Premium and \<open>price\<close> for Special; the log has grown by
  the transactions of the Active products in turn and by nothing else; and every user's
  balance has grown by the sum of the amounts of the transactions recorded for that
  user, so the product's owner is credited that amount once.
\<close>

theorem expiry_sweep_completes_and_pays_once:
  assumes p: "product \<in> set (getAllActiveProducts w)"
    and s: "startDate product \<le> clock w" and e: "endDate product \<le> clock w"
    and d: "distinct (map pp_id (purchased_products w))"
  shows "find (\<lambda>q. pp_id q = pp_id product) (purchased_products (processDailyPayouts w)) =
           Some (product\<lparr>pp_status := Completed\<rparr>) \<and>
         payoutTransactions (clock w) product = [completionTransaction product (clock w)] \<and>
         tx_userId (completionTransaction product (clock w)) = pp_userId product \<and>
         tx_amount (completionTransaction product (clock w)) =
           (case pp_planType product of
              Basic \<Rightarrow> totalEarning product
            | Premium \<Rightarrow> totalEarning product
            | Special \<Rightarrow> price product) \<and>
         transactions (processDailyPayouts w) =
           transactions w @ concat (map (payoutTransactions (clock w)) (getAllActiveProducts w)) \<and>
         (\<forall>userId. map_of (users (processDailyPayouts w)) userId =
            map_option (creditAll (concat (map (payoutTransactions (clock w)) (getAllActiveProducts w))) userId)
              (map_of (users w) userId)) \<and>
         (\<forall>userId u. orZero (balance (creditAll (concat (map (payoutTransactions (clock w)) (getAllActiveProducts w))) userId u)) =
            orZero (balance u) +
            sum_list (map tx_amount
              (filter (\<lambda>t. tx_userId t = userId)
                 (concat (map (payoutTransactions (clock w)) (getAllActiveProducts w))))))"
proof -
  note a = active_products [OF p]
  have sw: "sweptBy (clock w) product product = product\<lparr>pp_status := Completed\<rparr>"
    using a(3) s e by (simp add: sweptBy_def)
  have 1: "find (\<lambda>q. pp_id q = pp_id product) (purchased_products (processDailyPayouts w)) =
           Some (product\<lparr>pp_status := Completed\<rparr>)"
    using stored_after_sweep [OF p d] sw by simp
  have 2: "payoutTransactions (clock w) product = [completionTransaction product (clock w)]"
    using a(3) s e by (simp add: payoutTransactions_def)
  have 3: "tx_userId (completionTransaction product (clock w)) = pp_userId product"
    "tx_amount (completionTransaction product (clock w)) =
           (case pp_planType product of
              Basic \<Rightarrow> totalEarning product
            | Premium \<Rightarrow> totalEarning product
            | Special \<Rightarrow> price product)"
    by (simp_all add: completionTransaction_def finalPayout_def)
  note r = processDailyPayouts_client [OF a(1), unfolded sweepResult_def]
  from r have 4: "transactions (processDailyPayouts w) =
           transactions w @ concat (map (payoutTransactions (clock w)) (getAllActiveProducts w))"
    by blast
  from r have 5: "\<forall>userId. map_of (users (processDailyPayouts w)) userId =
            map_option (creditAll (concat (map (payoutTransactions (clock w)) (getAllActiveProducts w))) userId)
              (map_of (users w) userId)"
    by blast
  from 1 2 3 4 5 creditAll_balance show ?thesis by blast
qed

lemma lifecycle_facts:
  "getAllActiveProducts (lifecycleStore now) = [special1]"
  "clock (lifecycleStore now) = now"
  "purchased_products (lifecycleStore now) = [special1]"
  "transactions (lifecycleStore now) = []"
  "map_of (users (lifecycleStore now)) ''owner'' = Some (mkUser ''owner@example.org'' (Some 10) None)"
  by (simp_all add: lifecycleStore_def getAllActiveProducts_def special1_def)

lemma special1_fields:
  "startDate special1 = 0" "endDate special1 = 365 * msPerDay" "pp_planType special1 = Special"
  "price special1 = 3000" "dailyEarning special1 = 117" "pp_userId special1 = ''owner''"
  "lastPayoutDate special1 = None" "pp_status special1 = Active"
  by (simp_all add: special1_def)

text \<open>
  The Special product of the lifecycle example, swept when its 365 days have passed: the
  document is Completed, the one transaction has amount 3,000, and the owner's balance
  goes from 10 to 3,010.
\<close>

theorem expiry_sweep_completes_and_pays_once_witness:
  "special1 \<in> set (getAllActiveProducts (lifecycleStore (365 * msPerDay))) \<and>
   startDate special1 \<le> clock (lifecycleStore (365 * msPerDay)) \<and>
   endDate special1 \<le> clock (lifecycleStore (365 * msPerDay)) \<and>
   distinct (map pp_id (purchased_products (lifecycleStore (365 * msPerDay)))) \<and>
   find (\<lambda>q. pp_id q = ''pp1'') (purchased_products (processDailyPayouts (lifecycleStore (365 * msPerDay))))
     = Some (special1\<lparr>pp_status := Completed\<rparr>) \<and>
   map (\<lambda>t. (tx_userId t, tx_amount t)) (transactions (processDailyPayouts (lifecycleStore (365 * msPerDay))))
     = [(''owner'', 3000)] \<and>
   map_option balance (map_of (users (processDailyPayouts (lifecycleStore (365 * msPerDay)))) ''owner'')
     = Some (Some 3010)"
proof -
  let ?w = "lifecycleStore (365 * msPerDay)"
  have p: "special1 \<in> set (getAllActiveProducts ?w)" by (simp add: lifecycle_facts)
  have s: "startDate special1 \<le> clock ?w" by (simp add: lifecycle_facts special1_fields msPerDay_def)
  have e: "endDate special1 \<le> clock ?w" by (simp add: lifecycle_facts special1_fields)
  have d: "distinct (map pp_id (purchased_products ?w))" by (simp add: lifecycle_facts)
  note t = expiry_sweep_completes_and_pays_once [OF p s e d]
  from t have 1: "find (\<lambda>q. pp_id q = pp_id special1) (purchased_products (processDailyPayouts ?w))
     = Some (special1\<lparr>pp_status := Completed\<rparr>)"
    by blast
  from t have px: "payoutTransactions (clock ?w) special1 = [completionTransaction special1 (clock ?w)]"
    and am: "tx_amount (completionTransaction special1 (clock ?w)) =
           (case pp_planType special1 of
              Basic \<Rightarrow> totalEarning special1
            | Premium \<Rightarrow> totalEarning special1
            | Special \<Rightarrow> price special1)"
    and ow: "tx_userId (completionTransaction special1 (clock ?w)) = pp_userId special1"
    by blast+
  from t have "transactions (processDailyPayouts ?w) =
           transactions ?w @ concat (map (payoutTransactions (clock ?w)) (getAllActiveProducts ?w))"
    by blast
  then have tx: "transactions (processDailyPayouts ?w) = [completionTransaction special1 (clock ?w)]"
    using px by (simp add: lifecycle_facts)
  have 2: "map (\<lambda>t. (tx_userId t, tx_amount t)) (transactions (processDailyPayouts ?w)) = [(''owner'', 3000)]"
    unfolding tx using am ow by (simp add: special1_fields)
  from t have "map_of (users (processDailyPayouts ?w)) ''owner'' =
            map_option (creditAll (concat (map (payoutTransactions (clock ?w)) (getAllActiveProducts ?w))) ''owner'')
              (map_of (users ?w) ''owner'')"
    by blast
  then have 3: "map_option balance (map_of (users (processDailyPayouts ?w)) ''owner'') = Some (Some 3010)"
    using px am ow
    by (simp add: lifecycle_facts creditAll_simps special1_fields mkUser_def orZero_def)
  from p s e d 1 2 3 show ?thesis by (simp add: special1_fields(1,2) special1_def)
qed

subsection \<open>C6\<close>

lemma lastPayout_later:
  "payoutDateOk product \<Longrightarrow> lastPayout product = laterOfPayoutAndStart product"
  by (auto simp: payoutDateOk_def lastPayout_def laterOfPayoutAndStart_def split: option.splits)

lemma day_elapsed_iff: "daysSinceLastPayout now product \<ge> 1 \<longleftrightarrow> now - lastPayout product \<ge> msPerDay"
proof -
  have pos: "0 < msPerDay" by (simp add: msPerDay_def)
  have "1 \<le> (now - lastPayout product) div msPerDay \<longleftrightarrow> 0 < (now - lastPayout product) div msPerDay"
    by linarith
  also have "\<dots> \<longleftrightarrow> msPerDay \<le> now - lastPayout product"
    using pos by (rule pos_imp_zdiv_pos_iff)
  finally show ?thesis by (simp add: daysSinceLastPayout_def)
qed

text \<open>
  C6. On the client, for every Active product that has started and not reached its end
  date, with product documents under distinct ids and with a payout date that, when set,
  is not before the start date: the sweep records a transaction for the product, of
  amount \<open>dailyEarning\<close> for its owner, exactly when at least one full day has passed
  since the later of the payout date and the start date and the plan type is Special;
  a Basic or Premium product gets none. The log grows by the transactions of the Active
  products and every user's balance by the amounts recorded for that user. When a full
  day has passed the product's document gets the time of the sweep as payout date, and
  is otherwise unchanged; and a product whose payout date is the time of a sweep gets no
  daily transaction at any later time less than a day after it.
\<close>

theorem daily_sweep_pays_special_once_a_day:
  assumes p: "product \<in> set (getAllActiveProducts w)"
    and s: "startDate product \<le> clock w" and e: "clock w < endDate product"
    and d: "distinct (map pp_id (purchased_products w))"
    and ok: "payoutDateOk product"
  shows "payoutTransactions (clock w) product =
           (if clock w - laterOfPayoutAndStart product \<ge> msPerDay \<and> pp_planType product = Special
            then [dailyTransaction product (clock w)] else []) \<and>
         tx_userId (dailyTransaction product (clock w)) = pp_userId product \<and>
         tx_amount (dailyTransaction product (clock w)) = dailyEarning product \<and>
         transactions (processDailyPayouts w) =
           transactions w @ concat (map (payoutTransactions (clock w)) (getAllActiveProducts w)) \<and>
         (\<forall>userId. map_of (users (processDailyPayouts w)) userId =
            map_option (creditAll (concat (map (payoutTransactions (clock w)) (getAllActiveProducts w))) userId)
              (map_of (users w) userId)) \<and>
         (\<forall>userId u. orZero (balance (creditAll (concat (map (payoutTransactions (clock w)) (getAllActiveProducts w))) userId u)) =
            orZero (balance u) +
            sum_list (map tx_amount
              (filter (\<lambda>t. tx_userId t = userId)
                 (concat (map (payoutTransactions (clock w)) (getAllActiveProducts w)))))) \<and>
         find (\<lambda>q. pp_id q = pp_id product) (purchased_products (processDailyPayouts w)) =
           Some (if clock w - laterOfPayoutAndStart product \<ge> msPerDay
                 then product\<lparr>lastPayoutDate := Some (clock w)\<rparr> else product) \<and>
         payoutDateOk (product\<lparr>lastPayoutDate := Some (clock w)\<rparr>) \<and>
         (\<forall>later. later < endDate product \<and> later - clock w < msPerDay \<longrightarrow>
            payoutTransactions later (product\<lparr>lastPayoutDate := Some (clock w)\<rparr>) = [])"
proof -
  note a = active_products [OF p]
  have l: "lastPayout product = laterOfPayoutAndStart product"
    using ok by (rule lastPayout_later)
  have 1: "payoutTransactions (clock w) product =
           (if clock w - laterOfPayoutAndStart product \<ge> msPerDay \<and> pp_planType product = Special
            then [dailyTransaction product (clock w)] else [])"
    using a(3) s e by (simp add: payoutTransactions_def day_elapsed_iff l)
  have 2: "tx_userId (dailyTransaction product (clock w)) = pp_userId product"
    "tx_amount (dailyTransaction product (clock w)) = dailyEarning product"
    by (simp_all add: dailyTransaction_def)
  note r = processDailyPayouts_client [OF a(1), unfolded sweepResult_def]
  from r have 3: "transactions (processDailyPayouts w) =
           transactions w @ concat (map (payoutTransactions (clock w)) (getAllActiveProducts w))"
    by blast
  from r have 4: "\<forall>userId. map_of (users (processDailyPayouts w)) userId =
            map_option (creditAll (concat (map (payoutTransactions (clock w)) (getAllActiveProducts w))) userId)
              (map_of (users w) userId)"
    by blast
  have sw: "sweptBy (clock w) product product =
              (if clock w - laterOfPayoutAndStart product \<ge> msPerDay
               then product\<lparr>lastPayoutDate := Some (clock w)\<rparr> else product)"
    using a(3) s e by (simp add: sweptBy_def day_elapsed_iff l)
  have 5: "find (\<lambda>q. pp_id q = pp_id product) (purchased_products (processDailyPayouts w)) =
           Some (if clock w - laterOfPayoutAndStart product \<ge> msPerDay
                 then product\<lparr>lastPayoutDate := Some (clock w)\<rparr> else product)"
    using stored_after_sweep [OF p d] sw by simp
  have 6: "payoutDateOk (product\<lparr>lastPayoutDate := Some (clock w)\<rparr>)"
    using s by (simp add: payoutDateOk_def)
  have 7: "payoutTransactions later (product\<lparr>lastPayoutDate := Some (clock w)\<rparr>) = []"
    if "later < endDate product \<and> later - clock w < msPerDay" for later
    using that by (simp add: payoutTransactions_def day_elapsed_iff lastPayout_def)
  from 1 2 3 4 5 6 7 creditAll_balance show ?thesis by blast
qed

text \<open>
  The Special product of the lifecycle example, swept a day and five milliseconds after
  its start: one transaction of 117, the owner's balance goes from 10 to 127, and the
  document gets the time of the sweep as payout date.
\<close>

theorem daily_sweep_pays_special_once_a_day_witness:
  "special1 \<in> set (getAllActiveProducts (lifecycleStore (msPerDay + 5))) \<and>
   startDate special1 \<le> clock (lifecycleStore (msPerDay + 5)) \<and>
   clock (lifecycleStore (msPerDay + 5)) < endDate special1 \<and>
   distinct (map pp_id (purchased_products (lifecycleStore (msPerDay + 5)))) \<and>
   payoutDateOk special1 \<and>
   clock (lifecycleStore (msPerDay + 5)) - laterOfPayoutAndStart special1 \<ge> msPerDay \<and>
   map (\<lambda>t. (tx_userId t, tx_amount t)) (transactions (processDailyPayouts (lifecycleStore (msPerDay + 5))))
     = [(''owner'', 117)] \<and>
   map_option balance (map_of (users (processDailyPayouts (lifecycleStore (msPerDay + 5)))) ''owner'')
     = Some (Some 127) \<and>
   find (\<lambda>q. pp_id q = ''pp1'') (purchased_products (processDailyPayouts (lifecycleStore (msPerDay + 5))))
     = Some (special1\<lparr>lastPayoutDate := Some (msPerDay + 5)\<rparr>) \<and>
   msPerDay + 7 < endDate special1 \<and> (msPerDay + 7) - clock (lifecycleStore (msPerDay + 5)) < msPerDay \<and>
   payoutTransactions (msPerDay + 7) (special1\<lparr>lastPayoutDate := Some (msPerDay + 5)\<rparr>) = []"
proof -
  let ?w = "lifecycleStore (msPerDay + 5)"
  have pos: "0 < msPerDay" by (simp add: msPerDay_def)
  have p: "special1 \<in> set (getAllActiveProducts ?w)" by (simp add: lifecycle_facts)
  have s: "startDate special1 \<le> clock ?w" using pos by (simp add: lifecycle_facts special1_fields)
  have e: "clock ?w < endDate special1" by (simp add: lifecycle_facts special1_fields msPerDay_def)
  have d: "distinct (map pp_id (purchased_products ?w))" by (simp add: lifecycle_facts)
  have ok: "payoutDateOk special1" by (simp add: payoutDateOk_def special1_fields)
  have due: "clock ?w - laterOfPayoutAndStart special1 \<ge> msPerDay"
    by (simp add: lifecycle_facts laterOfPayoutAndStart_def special1_fields)
  have n: "msPerDay + 7 < endDate special1" "(msPerDay + 7) - clock ?w < msPerDay"
    by (simp_all add: lifecycle_facts special1_fields msPerDay_def)
  note t = daily_sweep_pays_special_once_a_day [OF p s e d ok]
  from t due have px: "payoutTransactions (clock ?w) special1 = [dailyTransaction special1 (clock ?w)]"
    by (simp add: special1_fields)
  from t have f: "tx_userId (dailyTransaction special1 (clock ?w)) = pp_userId special1"
      "tx_amount (dailyTransaction special1 (clock ?w)) = dailyEarning special1"
    by blast+
  from t have "transactions (processDailyPayouts ?w) =
           transactions ?w @ concat (map (payoutTransactions (clock ?w)) (getAllActiveProducts ?w))"
    by blast
  then have tx: "transactions (processDailyPayouts ?w) = [dailyTransaction special1 (clock ?w)]"
    using px by (simp add: lifecycle_facts)
  have 1: "map (\<lambda>t. (tx_userId t, tx_amount t)) (transactions (processDailyPayouts ?w)) = [(''owner'', 117)]"
    unfolding tx using f by (simp add: special1_fields)
  from t have "map_of (users (processDailyPayouts ?w)) ''owner'' =
            map_option (creditAll (concat (map (payoutTransactions (clock ?w)) (getAllActiveProducts ?w))) ''owner'')
              (map_of (users ?w) ''owner'')"
    by blast
  then have 2: "map_option balance (map_of (users (processDailyPayouts ?w)) ''owner'') = Some (Some 127)"
    using px f by (simp add: lifecycle_facts creditAll_simps special1_fields mkUser_def orZero_def)
  from t due have 3: "find (\<lambda>q. pp_id q = pp_id special1) (purchased_products (processDailyPayouts ?w))
     = Some (special1\<lparr>lastPayoutDate := Some (clock ?w)\<rparr>)"
    by simp
  from t n have 4: "payoutTransactions (msPerDay + 7) (special1\<lparr>lastPayoutDate := Some (clock ?w)\<rparr>) = []"
    by blast
  from p s e d ok due 1 2 3 4 n show ?thesis
    by (simp add: lifecycle_facts(2)) (simp add: special1_def)
qed

end
